theory Spec2Isabelle
  imports Main "HOL-Library.Word" "HOL-Library.Sublist"
begin

section \<open>JavaScript strings\<close>

text \<open>
  A JavaScript string is a sequence of UTF-16 code units. String literals of
  \<^verbatim>\<open>page.tsx\<close> are ASCII and are written \<open>js ''...''\<close>.
\<close>

type_synonym jschar = "16 word"
type_synonym jsstring = "jschar list"

definition js :: "string \<Rightarrow> jsstring" where
  "js s = map of_char s"

text \<open>
  \<^verbatim>\<open>String.prototype.trim\<close> strips, at both ends, the code units that ECMAScript
  calls WhiteSpace or LineTerminator: TAB, LF, VT, FF, CR, SP, NBSP, U+1680,
  U+2000 to U+200A, U+2028, U+2029, U+202F, U+205F, U+3000 and U+FEFF.
\<close>

definition isWhiteSpace :: "jschar \<Rightarrow> bool" where
  "isWhiteSpace c \<longleftrightarrow>
     c \<in> set [0x09, 0x0A, 0x0B, 0x0C, 0x0D, 0x20, 0xA0, 0x1680,
                0x2028, 0x2029, 0x202F, 0x205F, 0x3000, 0xFEFF]
     \<or> (0x2000 \<le> c \<and> c \<le> 0x200A)"

definition trim :: "jsstring \<Rightarrow> jsstring" where
  "trim s = rev (dropWhile isWhiteSpace (rev (dropWhile isWhiteSpace s)))"

text \<open>\<^verbatim>\<open>Array.prototype.join(sep)\<close> on an array of strings.\<close>

fun join :: "jsstring \<Rightarrow> jsstring list \<Rightarrow> jsstring" where
  "join sep [] = []"
| "join sep [x] = x"
| "join sep (x # y # ys) = x @ sep @ join sep (y # ys)"

text \<open>
  The lines of a text, \<^verbatim>\<open>text.split("\n")\<close>: the pieces between line
  feeds. A text without line feed is one line, the empty text included.
\<close>

fun text_lines :: "jsstring \<Rightarrow> jsstring list" where
  "text_lines [] = [[]]"
| "text_lines (x # xs) =
     (if x = 0x0A then [] # text_lines xs
      else (case text_lines xs of [] \<Rightarrow> [[x]] | l # ls \<Rightarrow> (x # l) # ls))"

text \<open>
  The value of a single-line input element holds neither line feed nor
  carriage return: the browser strips them from what is typed or pasted
  before \<^verbatim>\<open>e.target.value\<close> is read.
\<close>

definition singleLine :: "jsstring \<Rightarrow> bool" where
  "singleLine s \<longleftrightarrow> 0x0A \<notin> set s \<and> 0x0D \<notin> set s"

section \<open>The agent catalog and the policy mapping\<close>

text \<open>
  \<^verbatim>\<open>const llmList: { name: string; defaultAllow: boolean }[]\<close>
\<close>

record llm =
  name :: jsstring
  defaultAllow :: bool

definition llmList :: "llm list" where
  "llmList =
    [\<lparr>name = js ''OpenAI'', defaultAllow = True\<rparr>,
     \<lparr>name = js ''Perplexity'', defaultAllow = True\<rparr>,
     \<lparr>name = js ''ClaudeBot'', defaultAllow = False\<rparr>,
     \<lparr>name = js ''Google-Extended'', defaultAllow = False\<rparr>,
     \<lparr>name = js ''CCBot'', defaultAllow = False\<rparr>]"

text \<open>
  \<^verbatim>\<open>Record<string, boolean>\<close> is a plain object: reading a key it does not
  hold gives \<^verbatim>\<open>undefined\<close>, here \<open>None\<close>. (Keys inherited from
  \<^verbatim>\<open>Object.prototype\<close> are left out of the model; no catalog name is one.)
\<close>

type_synonym policy = "jsstring \<rightharpoonup> bool"

text \<open>\<^verbatim>\<open>Object.fromEntries\<close>: entries are stored in order, a later one wins.\<close>

definition fromEntries :: "(jsstring \<times> bool) list \<Rightarrow> policy" where
  "fromEntries es = foldl (\<lambda>obj (k, v). obj(k \<mapsto> v)) Map.empty es"

text \<open>The initializer of the \<^verbatim>\<open>settings\<close> state.\<close>

definition initialSettings :: policy where
  "initialSettings = fromEntries (map (\<lambda>l. (name l, defaultAllow l)) llmList)"

text \<open>
  JavaScript's ToBoolean on a value that is a boolean or \<^verbatim>\<open>undefined\<close>, as
  used by \<^verbatim>\<open>allow ? ... : ...\<close> and by \<^verbatim>\<open>!prev[name]\<close>.
\<close>

fun truthy :: "bool option \<Rightarrow> bool" where
  "truthy None = False"
| "truthy (Some b) = b"

text \<open>
  \<^verbatim>\<open>const toggleSetting = (name) => setSettings((prev) => ({ ...prev, [name]: !prev[name] }))\<close>:
  the updater applied to the previous mapping.
\<close>

definition toggleSetting :: "policy \<Rightarrow> jsstring \<Rightarrow> policy" where
  "toggleSetting prev n = prev(n \<mapsto> \<not> truthy (prev n))"

section \<open>The generator\<close>

text \<open>
  The body of the callback of \<^verbatim>\<open>llmList.forEach\<close>: three pushes onto
  \<^verbatim>\<open>lines\<close>.
\<close>

definition forEach_body :: "policy \<Rightarrow> jsstring list \<Rightarrow> llm \<Rightarrow> jsstring list" where
  "forEach_body settings lines l =
     (let allow = settings (name l) in
      lines @ [[]] @ [js ''User-Agent: '' @ name l]
            @ [if truthy allow then js ''Allow: /'' else js ''Disallow: /''])"

text \<open>
  The array \<^verbatim>\<open>lines\<close> at the end of the effect. \<^verbatim>\<open>a || b\<close> on strings
  takes \<open>b\<close> when \<open>a\<close> is empty, and \<^verbatim>\<open>if (contactTrim)\<close> tests for
  a non-empty string.
\<close>

definition generateLines :: "jsstring \<Rightarrow> jsstring \<Rightarrow> policy \<Rightarrow> jsstring list" where
  "generateLines siteUrl contact settings =
     (let urlDisplay = (if trim siteUrl \<noteq> [] then trim siteUrl else js ''your site'');
          lines = [js ''# LLMs.txt generated for '' @ urlDisplay];
          lines = lines @ [js ''User-Agent: *''];
          lines = lines @ [js ''Disallow: /''];
          lines = foldl (forEach_body settings) lines llmList;
          contactTrim = trim contact;
          lines = (if contactTrim \<noteq> []
                   then lines @ [[]] @ [js ''# Contact: '' @ contactTrim]
                   else lines)
      in lines)"

text \<open>\<^verbatim>\<open>lines.join("\n")\<close>, the value given to \<^verbatim>\<open>setGeneratedContent\<close>.\<close>

definition generate :: "jsstring \<Rightarrow> jsstring \<Rightarrow> policy \<Rightarrow> jsstring" where
  "generate siteUrl contact settings = join (js ''\<newline>'') (generateLines siteUrl contact settings)"

section \<open>The page state and its event handlers\<close>

text \<open>
  The five \<^verbatim>\<open>useState\<close> cells of \<^verbatim>\<open>Home\<close>, and what the handlers touch in
  the browser: the clipboard, the console, the clipboard writes that have been
  requested and have not settled yet (each with the text it was given), and
  the files saved by a download.
\<close>

datatype js_error = TypeError jsstring | DOMException jsstring

record page =
  siteUrl :: jsstring
  contact :: jsstring
  settings :: policy
  generatedContent :: jsstring
  copied :: bool
  clipboard :: jsstring
  console :: "js_error list"
  pending :: "jsstring list"
  downloads :: "(jsstring \<times> jsstring) list"

text \<open>The state of the first render, before any effect has run.\<close>

definition firstRender :: page where
  "firstRender =
     \<lparr>siteUrl = [], contact = [], settings = initialSettings,
      generatedContent = [], copied = False,
      clipboard = [], console = [], pending = [], downloads = []\<rparr>"

text \<open>
  The effect \<^verbatim>\<open>useEffect(() => {...}, [siteUrl, contact, settings])\<close>:
  it regenerates the text and resets the copied indicator.
\<close>

definition useEffect_body :: "page \<Rightarrow> page" where
  "useEffect_body s =
     s\<lparr>generatedContent := generate (siteUrl s) (contact s) (settings s),
       copied := False\<rparr>"

text \<open>The page after mounting: the effect runs once after the first render.\<close>

definition mounted :: page where
  "mounted = useEffect_body firstRender"

text \<open>
  \<^verbatim>\<open>handleCopy\<close> is an asynchronous function:
  \<^verbatim>\<open>try { await navigator.clipboard.writeText(generatedContent); setCopied(true) }
  catch (err) { console.error(err); setCopied(false) }\<close>.
  It runs in two parts, and other events may fall between them.

  The first part runs at the click, up to the \<^verbatim>\<open>await\<close>. Where the browser
  offers no clipboard (\<^verbatim>\<open>navigator.clipboard\<close> is \<^verbatim>\<open>undefined\<close>), reading
  \<^verbatim>\<open>writeText\<close> from it throws a \<^verbatim>\<open>TypeError\<close>: nothing is called and the
  \<^verbatim>\<open>catch\<close> clause runs at once. Otherwise \<^verbatim>\<open>writeText\<close> is called with the
  text generated at that moment, and the write is pending. Whether the
  browser offers a clipboard is not decided by the page: it is a parameter.
\<close>

datatype clipboard_api = Available | Missing jsstring

definition handleCopy_catch :: "js_error \<Rightarrow> page \<Rightarrow> page" where
  "handleCopy_catch err s = (s\<lparr>console := console s @ [err]\<rparr>)\<lparr>copied := False\<rparr>"

definition handleCopy_try :: "clipboard_api \<Rightarrow> page \<Rightarrow> js_error + page" where
  "handleCopy_try api s =
     (case api of
        Missing msg \<Rightarrow> Inl (TypeError msg)
      | Available \<Rightarrow> Inr (s\<lparr>pending := pending s @ [generatedContent s]\<rparr>))"

definition handleCopy :: "clipboard_api \<Rightarrow> page \<Rightarrow> page" where
  "handleCopy api s =
     (case handleCopy_try api s of
        Inl err \<Rightarrow> handleCopy_catch err s
      | Inr s1 \<Rightarrow> s1)"

text \<open>
  The second part runs when the promise of a pending write settles, with an
  outcome that the browser decides. A fulfilled write has put its text on the
  clipboard and \<^verbatim>\<open>setCopied(true)\<close> runs; a rejected one reaches the
  \<^verbatim>\<open>catch\<close> clause. Nothing is rethrown and no further write is requested.
  Pending writes may settle in any order; \<open>i\<close> names the one that does.
\<close>

datatype write_result = Fulfilled | Rejected js_error

definition handleCopy_resume :: "nat \<Rightarrow> write_result \<Rightarrow> page \<Rightarrow> page" where
  "handleCopy_resume i r s =
     (if i < length (pending s)
      then (let data = pending s ! i;
                s1 = s\<lparr>pending := take i (pending s) @ drop (Suc i) (pending s)\<rparr>
            in case r of
                 Fulfilled \<Rightarrow> (s1\<lparr>clipboard := data\<rparr>)\<lparr>copied := True\<rparr>
               | Rejected err \<Rightarrow> handleCopy_catch err s1)
      else s)"

text \<open>
  \<^verbatim>\<open>handleDownload\<close>: a blob of the generated text is saved under the name
  \<^verbatim>\<open>LLMs.txt\<close>; no state cell is written.
\<close>

definition handleDownload :: "page \<Rightarrow> page" where
  "handleDownload s = s\<lparr>downloads := downloads s @ [(js ''LLMs.txt'', generatedContent s)]\<rparr>"

text \<open>
  The events of the page. The two text fields are single-line input elements,
  so a change event carries a value without line feed or carriage return. The
  page renders one checkbox per catalog entry, so a toggle event names a
  catalog agent. A settling names a pending write. An event outside these
  bounds cannot happen and is modelled as doing nothing.

  After a handler has written a state cell, React renders again and runs the
  effect when one of its dependencies \<^verbatim>\<open>[siteUrl, contact, settings]\<close> differs
  from the previous render. The two strings are compared by value. The mapping
  is compared by identity, and \<^verbatim>\<open>toggleSetting\<close> always builds a new object, so
  the effect runs after every toggle. \<^verbatim>\<open>setCopied\<close> changes no dependency.
\<close>

datatype event =
    ChangeSiteUrl jsstring
  | ChangeContact jsstring
  | ToggleCheckbox jsstring
  | ClickCopy clipboard_api
  | WriteSettles nat write_result
  | ClickDownload

fun step :: "event \<Rightarrow> page \<Rightarrow> page" where
  "step (ChangeSiteUrl v) s =
     (if singleLine v \<and> v \<noteq> siteUrl s then useEffect_body (s\<lparr>siteUrl := v\<rparr>) else s)"
| "step (ChangeContact v) s =
     (if singleLine v \<and> v \<noteq> contact s then useEffect_body (s\<lparr>contact := v\<rparr>) else s)"
| "step (ToggleCheckbox n) s =
     (if n \<in> set (map name llmList)
      then useEffect_body (s\<lparr>settings := toggleSetting (settings s) n\<rparr>)
      else s)"
| "step (ClickCopy api) s = handleCopy api s"
| "step (WriteSettles i r) s = handleCopy_resume i r s"
| "step ClickDownload s = handleDownload s"

fun run :: "page \<Rightarrow> event list \<Rightarrow> page" where
  "run s [] = s"
| "run s (e # es) = run (step e s) es"



text \<open>A mapping that lacks keys of the catalog: it holds \<^verbatim>\<open>OpenAI\<close> only.\<close>

definition onlyOpenAI :: policy where
  "onlyOpenAI = fromEntries [(js ''OpenAI'', True)]"

text \<open>
  What holds of the page after mounting and after every event: the displayed
  text is the one generated from the form state, the two fields are single
  lines, and the mapping holds a boolean for every catalog agent.
\<close>

definition synced :: "page \<Rightarrow> bool" where
  "synced s \<longleftrightarrow> generatedContent s = generate (siteUrl s) (contact s) (settings s)"

definition wellformed :: "page \<Rightarrow> bool" where
  "wellformed s \<longleftrightarrow>
     synced s \<and> singleLine (siteUrl s) \<and> singleLine (contact s)
     \<and> list_all (\<lambda>l. settings s (name l) \<noteq> None) llmList"

section \<open>Basic facts\<close>

text \<open>
  Literals, the loop of the generator written out, and the shape of the
  generated text.
\<close>

lemma js_append: "js (a @ b) = js a @ js b"
  by (simp add: js_def)

lemma js_Nil: "js [] = []"
  by (simp add: js_def)

lemma js_nnn: "js ''\<newline>\<newline>\<newline>'' = [10, 10, 10]" and js_n: "js ''\<newline>'' = [10]"
  by (simp_all add: js_def)

lemma trim_Nil: "trim [] = []"
  by (simp add: trim_def)

lemma isWhiteSpace_LF: "isWhiteSpace 10"
  by (simp add: isWhiteSpace_def)

lemma last_trim: "trim s \<noteq> [] \<Longrightarrow> \<not> isWhiteSpace (last (trim s))"
proof -
  assume ne: "trim s \<noteq> []"
  let ?d = "dropWhile isWhiteSpace (rev (dropWhile isWhiteSpace s))"
  from ne have d: "?d \<noteq> []" by (simp add: trim_def)
  then have "\<not> isWhiteSpace (hd ?d)" by (rule hd_dropWhile)
  moreover have "last (trim s) = hd ?d"
    using d by (simp add: trim_def last_rev)
  ultimately show ?thesis by simp
qed

lemma last_trim_LF: "trim s \<noteq> [] \<Longrightarrow> last (trim s) \<noteq> 10"
  using last_trim isWhiteSpace_LF by metis

lemma set_trim: "set (trim s) \<subseteq> set s"
proof -
  have "set (dropWhile isWhiteSpace (rev (dropWhile isWhiteSpace s))) \<subseteq> set (rev (dropWhile isWhiteSpace s))"
    by (auto dest: set_dropWhileD)
  also have "\<dots> \<subseteq> set s"
    by (auto dest: set_dropWhileD)
  finally show ?thesis by (simp add: trim_def)
qed

lemma singleLine_Nil: "singleLine []"
  by (simp add: singleLine_def)

lemma singleLine_trim: "singleLine s \<Longrightarrow> 10 \<notin> set (trim s)"
  using set_trim [of s] by (auto simp: singleLine_def)

lemma truthy_iff: "truthy x = (x = Some True)"
  by (cases x) simp_all

lemma generateLines_unfold:
  "generateLines u c m =
     [js ''# LLMs.txt generated for '' @ (if trim u \<noteq> [] then trim u else js ''your site''),
      js ''User-Agent: *'', js ''Disallow: /'']
     @ concat (map (\<lambda>l. [[], js ''User-Agent: '' @ name l,
                          if truthy (m (name l)) then js ''Allow: /'' else js ''Disallow: /''])
                   llmList)
     @ (if trim c \<noteq> [] then [[], js ''# Contact: '' @ trim c] else [])"
  by (simp add: generateLines_def forEach_body_def llmList_def Let_def)

lemma generateLines_nonempty: "generateLines u c m \<noteq> []"
  by (simp add: generateLines_unfold)

lemma length_generateLines: "length (generateLines u c m) = (if trim c = [] then 18 else 20)"
  by (simp add: generateLines_unfold llmList_def)

lemma generate_text:
  "generate u c m =
     js ''# LLMs.txt generated for '' @ (if trim u = [] then js ''your site'' else trim u)
     @ js ''\<newline>User-Agent: *\<newline>Disallow: /''
     @ js ''\<newline>\<newline>User-Agent: OpenAI\<newline>''
     @ (if truthy (m (js ''OpenAI'')) then js ''Allow: /'' else js ''Disallow: /'')
     @ js ''\<newline>\<newline>User-Agent: Perplexity\<newline>''
     @ (if truthy (m (js ''Perplexity'')) then js ''Allow: /'' else js ''Disallow: /'')
     @ js ''\<newline>\<newline>User-Agent: ClaudeBot\<newline>''
     @ (if truthy (m (js ''ClaudeBot'')) then js ''Allow: /'' else js ''Disallow: /'')
     @ js ''\<newline>\<newline>User-Agent: Google-Extended\<newline>''
     @ (if truthy (m (js ''Google-Extended'')) then js ''Allow: /'' else js ''Disallow: /'')
     @ js ''\<newline>\<newline>User-Agent: CCBot\<newline>''
     @ (if truthy (m (js ''CCBot'')) then js ''Allow: /'' else js ''Disallow: /'')
     @ (if trim c = [] then [] else js ''\<newline>\<newline># Contact: '' @ trim c)"
  unfolding generate_def generateLines_unfold llmList_def
  by (simp add: js_def)

lemma generate_ends:
  "\<exists>p. generate u c m =
     p @ (if truthy (m (js ''CCBot'')) then js ''Allow: /'' else js ''Disallow: /'')
       @ (if trim c = [] then [] else js ''\<newline>\<newline># Contact: '' @ trim c)"
  unfolding generate_text
  by (metis append.assoc)

lemma names_distinct:
  "js ''OpenAI'' \<noteq> js ''Perplexity''" "js ''OpenAI'' \<noteq> js ''ClaudeBot''"
  "js ''OpenAI'' \<noteq> js ''Google-Extended''" "js ''OpenAI'' \<noteq> js ''CCBot''"
  "js ''Perplexity'' \<noteq> js ''ClaudeBot''" "js ''Perplexity'' \<noteq> js ''Google-Extended''"
  "js ''Perplexity'' \<noteq> js ''CCBot''" "js ''ClaudeBot'' \<noteq> js ''Google-Extended''"
  "js ''ClaudeBot'' \<noteq> js ''CCBot''" "js ''Google-Extended'' \<noteq> js ''CCBot''"
  by (simp_all add: js_def)

lemma initialSettings_values:
  "initialSettings (js ''OpenAI'') = Some True"
  "initialSettings (js ''Perplexity'') = Some True"
  "initialSettings (js ''ClaudeBot'') = Some False"
  "initialSettings (js ''Google-Extended'') = Some False"
  "initialSettings (js ''CCBot'') = Some False"
  using names_distinct
  by (simp_all add: initialSettings_def fromEntries_def llmList_def)

lemma onlyOpenAI_ClaudeBot: "onlyOpenAI (js ''ClaudeBot'') = None"
  using names_distinct by (simp add: onlyOpenAI_def fromEntries_def)

lemma agent_lines:
  "drop 3 (generateLines u c m) =
     [[], js ''User-Agent: OpenAI'',
      if m (js ''OpenAI'') = Some True then js ''Allow: /'' else js ''Disallow: /'',
      [], js ''User-Agent: Perplexity'',
      if m (js ''Perplexity'') = Some True then js ''Allow: /'' else js ''Disallow: /'',
      [], js ''User-Agent: ClaudeBot'',
      if m (js ''ClaudeBot'') = Some True then js ''Allow: /'' else js ''Disallow: /'',
      [], js ''User-Agent: Google-Extended'',
      if m (js ''Google-Extended'') = Some True then js ''Allow: /'' else js ''Disallow: /'',
      [], js ''User-Agent: CCBot'',
      if m (js ''CCBot'') = Some True then js ''Allow: /'' else js ''Disallow: /'']
     @ (if trim c = [] then [] else [[], js ''# Contact: '' @ trim c])"
  by (simp add: generateLines_unfold llmList_def truthy_iff js_append [symmetric])

lemma contact_entries:
  "generateLines u c m =
      generateLines u [] m @ (if trim c \<noteq> [] then [[], js ''# Contact: '' @ trim c] else [])"
  "generate u c m =
      generate u [] m @ (if trim c \<noteq> [] then js ''\<newline>\<newline># Contact: '' @ trim c else [])"
  "filter (prefix (js ''# Contact:'')) (generateLines u [] m) = []"
  "prefix (js ''# Contact:'') (js ''# Contact: '' @ trim c)"
  "js ''# Contact:'' \<noteq> []"
  "length (generateLines u [] m) = 18"
proof -
  show "generateLines u c m =
      generateLines u [] m @ (if trim c \<noteq> [] then [[], js ''# Contact: '' @ trim c] else [])"
    by (simp add: generateLines_unfold trim_Nil)
  show "generate u c m =
      generate u [] m @ (if trim c \<noteq> [] then js ''\<newline>\<newline># Contact: '' @ trim c else [])"
    by (simp add: generate_text trim_Nil)
  show "filter (prefix (js ''# Contact:'')) (generateLines u [] m) = []"
    by (simp add: generateLines_unfold trim_Nil llmList_def js_def)
  show "prefix (js ''# Contact:'') (js ''# Contact: '' @ trim c)"
    by (simp add: js_def)
  show "js ''# Contact:'' \<noteq> []"
    by (simp add: js_def)
  show "length (generateLines u [] m) = 18"
    by (simp add: length_generateLines trim_Nil)
qed

lemma contact_filter:
  "filter (prefix (js ''# Contact:'')) (generateLines u c m) =
     (if trim c \<noteq> [] then [js ''# Contact: '' @ trim c] else [])"
  unfolding contact_entries(1) [of u c m]
  using contact_entries(3,4,5) by simp

lemma toggle_lines:
  assumes j: "j < length llmList" and n: "name (llmList ! j) = n"
  shows "generateLines u c (toggleSetting m n) =
          (generateLines u c m)[3 * j + 5 :=
             (if truthy (m n) then js ''Disallow: /'' else js ''Allow: /'')]"
    and "generateLines u c m ! (3 * j + 5) =
             (if truthy (m n) then js ''Allow: /'' else js ''Disallow: /'')"
    and "generateLines u c (toggleSetting m n) ! (3 * j + 5) \<noteq> generateLines u c m ! (3 * j + 5)"
    and "3 * j + 5 < length (generateLines u c m)"
proof -
  have r: "js ''Allow: /'' \<noteq> js ''Disallow: /''"
    by (simp add: js_def)
  from j have "j = 0 \<or> j = 1 \<or> j = 2 \<or> j = 3 \<or> j = 4"
    by (simp add: llmList_def) arith
  then have "generateLines u c (toggleSetting m n) =
          (generateLines u c m)[3 * j + 5 :=
             (if truthy (m n) then js ''Disallow: /'' else js ''Allow: /'')]
      \<and> generateLines u c m ! (3 * j + 5) =
             (if truthy (m n) then js ''Allow: /'' else js ''Disallow: /'')
      \<and> generateLines u c (toggleSetting m n) ! (3 * j + 5) \<noteq> generateLines u c m ! (3 * j + 5)"
    using n r r [symmetric] names_distinct names_distinct [symmetric]
    by (elim disjE) (simp_all add: generateLines_unfold llmList_def toggleSetting_def)
  then show "generateLines u c (toggleSetting m n) =
          (generateLines u c m)[3 * j + 5 :=
             (if truthy (m n) then js ''Disallow: /'' else js ''Allow: /'')]"
    and "generateLines u c m ! (3 * j + 5) =
             (if truthy (m n) then js ''Allow: /'' else js ''Disallow: /'')"
    and "generateLines u c (toggleSetting m n) ! (3 * j + 5) \<noteq> generateLines u c m ! (3 * j + 5)"
    by blast+
  from j show "3 * j + 5 < length (generateLines u c m)"
    by (simp add: length_generateLines llmList_def)
qed


text \<open>
  The lines of the generated text are the entries of \<^verbatim>\<open>lines\<close> when the site
  URL and the contact are single lines.
\<close>

lemma text_lines_nonempty: "text_lines xs \<noteq> []"
  by (induction xs) (auto split: list.splits)

lemma text_lines_append:
  "10 \<notin> set l \<Longrightarrow> text_lines (l @ rest) = (l @ hd (text_lines rest)) # tl (text_lines rest)"
proof (induction l)
  case Nil
  then show ?case using text_lines_nonempty [of rest] by simp
next
  case (Cons x l)
  then show ?case by simp
qed

lemma text_lines_single: "10 \<notin> set l \<Longrightarrow> text_lines l = [l]"
  using text_lines_append [of l "[]"] by simp

lemma text_lines_line: "10 \<notin> set l \<Longrightarrow> text_lines (l @ 10 # rest) = l # text_lines rest"
  using text_lines_append [of l "10 # rest"] by simp

lemma literal_lines_clean:
  "10 \<notin> set (js ''# LLMs.txt generated for '')" "10 \<notin> set (js ''your site'')"
  "10 \<notin> set (js ''User-Agent: *'')" "10 \<notin> set (js ''Disallow: /'')" "10 \<notin> set (js ''Allow: /'')"
  "10 \<notin> set (js ''User-Agent: '')" "10 \<notin> set (js ''# Contact: '')"
  "10 \<notin> set (js ''OpenAI'')" "10 \<notin> set (js ''Perplexity'')" "10 \<notin> set (js ''ClaudeBot'')"
  "10 \<notin> set (js ''Google-Extended'')" "10 \<notin> set (js ''CCBot'')"
  by (simp_all add: js_def)

lemma generateLines_clean:
  assumes "10 \<notin> set (trim u)" "10 \<notin> set (trim c)"
  shows "\<forall>l \<in> set (generateLines u c m). 10 \<notin> set l"
  using assms literal_lines_clean
  by (auto simp: generateLines_unfold llmList_def)

text \<open>
  What holds of the page after mounting and after every event.
\<close>

lemma synced_useEffect_body: "synced (useEffect_body s)"
  by (simp add: synced_def useEffect_body_def)

lemma synced_step: "synced s \<Longrightarrow> synced (step e s)"
proof (cases e)
  case (ClickCopy api)
  assume "synced s"
  then show ?thesis using ClickCopy
    by (cases api) (simp_all add: synced_def handleCopy_def handleCopy_try_def handleCopy_catch_def)
next
  case (WriteSettles i r)
  assume "synced s"
  then show ?thesis using WriteSettles
    by (cases r) (simp_all add: synced_def handleCopy_resume_def handleCopy_catch_def Let_def)
next
  case ClickDownload
  assume "synced s"
  then show ?thesis using ClickDownload by (simp add: synced_def handleDownload_def)
qed (simp_all add: synced_useEffect_body)

lemma synced_run: "synced s \<Longrightarrow> synced (run s evs)"
  by (induction evs arbitrary: s) (simp_all add: synced_step)

lemma synced_mounted: "synced mounted"
  by (simp add: mounted_def synced_useEffect_body)

lemma wellformed_mounted: "wellformed mounted"
  by (simp add: wellformed_def synced_mounted)
     (auto simp: mounted_def useEffect_body_def firstRender_def singleLine_Nil llmList_def
        initialSettings_values)

lemma wellformed_step:
  assumes "wellformed s"
  shows "wellformed (step e s)"
proof -
  from assms have a: "synced s" "singleLine (siteUrl s)" "singleLine (contact s)"
      "list_all (\<lambda>l. settings s (name l) \<noteq> None) llmList"
    by (simp_all add: wellformed_def)
  have 1: "synced (step e s)"
    using a(1) by (rule synced_step)
  have 2: "singleLine (siteUrl (step e s)) \<and> singleLine (contact (step e s))
      \<and> list_all (\<lambda>l. settings (step e s) (name l) \<noteq> None) llmList"
  proof (cases e)
    case (ChangeSiteUrl v)
    with a show ?thesis by (simp add: useEffect_body_def)
  next
    case (ChangeContact v)
    with a show ?thesis by (simp add: useEffect_body_def)
  next
    case (ToggleCheckbox n)
    with a show ?thesis
      by (simp add: useEffect_body_def list_all_iff toggleSetting_def)
  next
    case (ClickCopy api)
    with a show ?thesis
      by (cases api) (simp_all add: handleCopy_def handleCopy_try_def handleCopy_catch_def)
  next
    case (WriteSettles i r)
    with a show ?thesis
      by (cases r) (simp_all add: handleCopy_resume_def handleCopy_catch_def Let_def)
  next
    case ClickDownload
    with a show ?thesis by (simp add: handleDownload_def)
  qed
  from 1 2 show ?thesis by (simp add: wellformed_def)
qed

lemma wellformed_run: "wellformed s \<Longrightarrow> wellformed (run s evs)"
  by (induction evs arbitrary: s) (simp_all add: wellformed_step)

lemma wellformed_reachable: "wellformed (run mounted evs)"
  by (rule wellformed_run [OF wellformed_mounted])

lemma reachable_facts:
  "generatedContent (run mounted evs) =
     generate (siteUrl (run mounted evs)) (contact (run mounted evs)) (settings (run mounted evs))"
  "singleLine (siteUrl (run mounted evs))" "singleLine (contact (run mounted evs))"
  "n \<in> set (map name llmList) \<Longrightarrow> settings (run mounted evs) n \<noteq> None"
  using wellformed_reachable [of evs]
  by (auto simp: wellformed_def synced_def list_all_iff)

text \<open>
  Three consecutive newlines cannot straddle a code unit that is not a newline.
\<close>

lemma nnn_split:
  assumes "x \<noteq> 10"
  shows "sublist [10, 10, 10] (a @ x # b) \<longleftrightarrow> sublist [10, 10, 10 :: jschar] a \<or> sublist [10, 10, 10] b"
proof (induction a)
  case Nil
  show ?case using assms by (simp add: sublist_Cons_right)
next
  case (Cons y a)
  have "prefix [10, 10, 10] (y # a @ x # b) \<longleftrightarrow> prefix [10, 10, 10] (y # a)"
  proof (cases a)
    case Nil
    then show ?thesis using assms by simp
  next
    case (Cons a1 a')
    then show ?thesis using assms by (cases a') auto
  qed
  with Cons.IH show ?case
    by (auto simp: sublist_Cons_right)
qed

lemma nnn_append:
  assumes "a \<noteq> []" "last a \<noteq> 10"
  shows "sublist [10, 10, 10] (a @ b) \<longleftrightarrow> sublist [10, 10, 10 :: jschar] a \<or> sublist [10, 10, 10] b"
proof -
  from assms(1) have a: "a = butlast a @ [last a]" by simp
  have "sublist [10, 10, 10] (butlast a @ last a # b) \<longleftrightarrow>
          sublist [10, 10, 10] (butlast a) \<or> sublist [10, 10, 10] b"
    by (rule nnn_split [OF assms(2)])
  moreover have "sublist [10, 10, 10] (butlast a @ last a # []) \<longleftrightarrow>
          sublist [10, 10, 10] (butlast a) \<or> sublist [10, 10, 10 :: jschar] []"
    by (rule nnn_split [OF assms(2)])
  moreover have "butlast a @ last a # b = a @ b"
    using assms(1) by simp
  ultimately show ?thesis using a by simp
qed

lemma block_facts:
  fixes b :: bool and p :: string
  assumes "\<not> sublist [10, 10, 10] (js p @ js ''Allow: /'')"
      and "\<not> sublist [10, 10, 10] (js p @ js ''Disallow: /'')"
  shows "js p @ (if b then js ''Allow: /'' else js ''Disallow: /'') \<noteq> []"
    and "last (js p @ (if b then js ''Allow: /'' else js ''Disallow: /'')) \<noteq> 10"
    and "\<not> sublist [10, 10, 10] (js p @ (if b then js ''Allow: /'' else js ''Disallow: /''))"
  using assms by (simp_all add: js_def)

lemma blocks_clean:
  "\<not> sublist [10, 10, 10] (js ''\<newline>User-Agent: *\<newline>Disallow: /'')"
  "\<not> sublist [10, 10, 10] (js ''\<newline>\<newline>User-Agent: OpenAI\<newline>'' @ js ''Allow: /'')"
  "\<not> sublist [10, 10, 10] (js ''\<newline>\<newline>User-Agent: OpenAI\<newline>'' @ js ''Disallow: /'')"
  "\<not> sublist [10, 10, 10] (js ''\<newline>\<newline>User-Agent: Perplexity\<newline>'' @ js ''Allow: /'')"
  "\<not> sublist [10, 10, 10] (js ''\<newline>\<newline>User-Agent: Perplexity\<newline>'' @ js ''Disallow: /'')"
  "\<not> sublist [10, 10, 10] (js ''\<newline>\<newline>User-Agent: ClaudeBot\<newline>'' @ js ''Allow: /'')"
  "\<not> sublist [10, 10, 10] (js ''\<newline>\<newline>User-Agent: ClaudeBot\<newline>'' @ js ''Disallow: /'')"
  "\<not> sublist [10, 10, 10] (js ''\<newline>\<newline>User-Agent: Google-Extended\<newline>'' @ js ''Allow: /'')"
  "\<not> sublist [10, 10, 10] (js ''\<newline>\<newline>User-Agent: Google-Extended\<newline>'' @ js ''Disallow: /'')"
  "\<not> sublist [10, 10, 10] (js ''\<newline>\<newline>User-Agent: CCBot\<newline>'' @ js ''Allow: /'')"
  "\<not> sublist [10, 10, 10] (js ''\<newline>\<newline>User-Agent: CCBot\<newline>'' @ js ''Disallow: /'')"
  by (simp_all add: js_def sublist_Cons_right)

lemma triple_newline_iff:
  "sublist [10, 10, 10] (generate u c m) \<longleftrightarrow>
     sublist [10, 10, 10] (trim u) \<or> sublist [10, 10, 10] (trim c)"
proof -
  define H where "H = js ''# LLMs.txt generated for ''"
  define t where "t = (if trim u = [] then js ''your site'' else trim u)"
  define A where "A = js ''\<newline>User-Agent: *\<newline>Disallow: /''"
  define B1 where "B1 = js ''\<newline>\<newline>User-Agent: OpenAI\<newline>''
     @ (if truthy (m (js ''OpenAI'')) then js ''Allow: /'' else js ''Disallow: /'')"
  define B2 where "B2 = js ''\<newline>\<newline>User-Agent: Perplexity\<newline>''
     @ (if truthy (m (js ''Perplexity'')) then js ''Allow: /'' else js ''Disallow: /'')"
  define B3 where "B3 = js ''\<newline>\<newline>User-Agent: ClaudeBot\<newline>''
     @ (if truthy (m (js ''ClaudeBot'')) then js ''Allow: /'' else js ''Disallow: /'')"
  define B4 where "B4 = js ''\<newline>\<newline>User-Agent: Google-Extended\<newline>''
     @ (if truthy (m (js ''Google-Extended'')) then js ''Allow: /'' else js ''Disallow: /'')"
  define B5 where "B5 = js ''\<newline>\<newline>User-Agent: CCBot\<newline>''
     @ (if truthy (m (js ''CCBot'')) then js ''Allow: /'' else js ''Disallow: /'')"
  define K where "K = js ''\<newline>\<newline># Contact: ''"
  define C where "C = (if trim c = [] then [] else K @ trim c)"
  have g: "generate u c m = H @ t @ A @ B1 @ B2 @ B3 @ B4 @ B5 @ C"
    unfolding generate_text H_def t_def A_def B1_def B2_def B3_def B4_def B5_def C_def K_def
    by simp
  have H: "H \<noteq> []" "last H \<noteq> 10" "\<not> sublist [10, 10, 10] H"
    by (simp_all add: H_def js_def sublist_Cons_right)
  have K: "K \<noteq> []" "last K \<noteq> 10" "\<not> sublist [10, 10, 10] K"
    by (simp_all add: K_def js_def sublist_Cons_right)
  have A: "A \<noteq> []" "last A \<noteq> 10" "\<not> sublist [10, 10, 10] A"
    unfolding A_def using blocks_clean(1) by (simp_all add: js_def)
  have B1: "B1 \<noteq> []" "last B1 \<noteq> 10" "\<not> sublist [10, 10, 10] B1"
    unfolding B1_def by (rule block_facts [OF blocks_clean(2,3)])+
  have B2: "B2 \<noteq> []" "last B2 \<noteq> 10" "\<not> sublist [10, 10, 10] B2"
    unfolding B2_def by (rule block_facts [OF blocks_clean(4,5)])+
  have B3: "B3 \<noteq> []" "last B3 \<noteq> 10" "\<not> sublist [10, 10, 10] B3"
    unfolding B3_def by (rule block_facts [OF blocks_clean(6,7)])+
  have B4: "B4 \<noteq> []" "last B4 \<noteq> 10" "\<not> sublist [10, 10, 10] B4"
    unfolding B4_def by (rule block_facts [OF blocks_clean(8,9)])+
  have B5: "B5 \<noteq> []" "last B5 \<noteq> 10" "\<not> sublist [10, 10, 10] B5"
    unfolding B5_def by (rule block_facts [OF blocks_clean(10,11)])+
  have ys: "\<not> sublist [10, 10, 10] (js ''your site'')" "last (js ''your site'') \<noteq> 10"
    "js ''your site'' \<noteq> []"
    by (simp_all add: js_def sublist_Cons_right)
  have t: "t \<noteq> []" "last t \<noteq> 10"
    using ys last_trim_LF [of u] by (simp_all add: t_def)
  have tu: "sublist [10, 10, 10] t \<longleftrightarrow> sublist [10, 10, 10] (trim u)"
    using ys by (simp add: t_def)
  have Cc: "sublist [10, 10, 10] C \<longleftrightarrow> sublist [10, 10, 10] (trim c)"
    using K by (simp add: C_def nnn_append)
  show ?thesis
    unfolding g using H t A B1 B2 B3 B4 B5 tu Cc by (simp add: nnn_append)
qed

lemma no_trailing_newline: "generate u c m \<noteq> [] \<and> last (generate u c m) \<noteq> 10"
proof -
  obtain p where p: "generate u c m =
     p @ (if truthy (m (js ''CCBot'')) then js ''Allow: /'' else js ''Disallow: /'')
       @ (if trim c = [] then [] else js ''\<newline>\<newline># Contact: '' @ trim c)"
    using generate_ends by blast
  have r: "(if truthy (m (js ''CCBot'')) then js ''Allow: /'' else js ''Disallow: /'') \<noteq> []"
      "last (if truthy (m (js ''CCBot'')) then js ''Allow: /'' else js ''Disallow: /'') \<noteq> 10"
    by (simp_all add: js_def)
  show ?thesis
  proof (cases "trim c = []")
    case True
    with p r show ?thesis by simp
  next
    case False
    with p last_trim_LF [of c] show ?thesis by simp
  qed
qed

text \<open>
  Runs of events, and what an event that keeps the copied indicator set must
  have been.
\<close>

lemma run_append: "run s (xs @ ys) = run (run s xs) ys"
  by (induction xs arbitrary: s) simp_all








section \<open>The end-to-end example\<close>

text \<open>
  C1. With an empty site URL, an empty contact and the catalog's default
  policies, the generator pushes exactly the eighteen lines of the example
  (header for ``your site'', deny-all block, one block per agent in catalog
  order with its default rule, no contact line), and the generated text is
  these lines separated by single newlines. It is also the text the page
  shows after mounting.
\<close>

theorem default_output:
  "generateLines [] [] initialSettings =
     [js ''# LLMs.txt generated for your site'',
      js ''User-Agent: *'',
      js ''Disallow: /'',
      js '''',
      js ''User-Agent: OpenAI'',
      js ''Allow: /'',
      js '''',
      js ''User-Agent: Perplexity'',
      js ''Allow: /'',
      js '''',
      js ''User-Agent: ClaudeBot'',
      js ''Disallow: /'',
      js '''',
      js ''User-Agent: Google-Extended'',
      js ''Disallow: /'',
      js '''',
      js ''User-Agent: CCBot'',
      js ''Disallow: /'']
   \<and> length (generateLines [] [] initialSettings) = 18
   \<and> generate [] [] initialSettings =
       js ''# LLMs.txt generated for your site\<newline>User-Agent: *\<newline>Disallow: /\<newline>\<newline>User-Agent: OpenAI\<newline>Allow: /\<newline>\<newline>User-Agent: Perplexity\<newline>Allow: /\<newline>\<newline>User-Agent: ClaudeBot\<newline>Disallow: /\<newline>\<newline>User-Agent: Google-Extended\<newline>Disallow: /\<newline>\<newline>User-Agent: CCBot\<newline>Disallow: /''
   \<and> generatedContent mounted = generate [] [] initialSettings"
proof -
  have lines: "generateLines [] [] initialSettings =
     [js ''# LLMs.txt generated for your site'', js ''User-Agent: *'', js ''Disallow: /'',
      js '''', js ''User-Agent: OpenAI'', js ''Allow: /'',
      js '''', js ''User-Agent: Perplexity'', js ''Allow: /'',
      js '''', js ''User-Agent: ClaudeBot'', js ''Disallow: /'',
      js '''', js ''User-Agent: Google-Extended'', js ''Disallow: /'',
      js '''', js ''User-Agent: CCBot'', js ''Disallow: /'']"
    by (simp add: generateLines_unfold llmList_def initialSettings_values trim_Nil
          js_Nil js_append [symmetric])
  have whole: "generate [] [] initialSettings =
       js ''# LLMs.txt generated for your site\<newline>User-Agent: *\<newline>Disallow: /\<newline>\<newline>User-Agent: OpenAI\<newline>Allow: /\<newline>\<newline>User-Agent: Perplexity\<newline>Allow: /\<newline>\<newline>User-Agent: ClaudeBot\<newline>Disallow: /\<newline>\<newline>User-Agent: Google-Extended\<newline>Disallow: /\<newline>\<newline>User-Agent: CCBot\<newline>Disallow: /''"
    unfolding generate_def lines by (simp add: js_def)
  have mnt: "generatedContent mounted = generate [] [] initialSettings"
    by (simp add: mounted_def useEffect_body_def firstRender_def)
  from lines whole mnt show ?thesis by simp
qed

section \<open>Header and deny-all block\<close>

text \<open>
  C2. For every site URL, contact and policy mapping, the first three lines
  pushed are the header \<^verbatim>\<open># LLMs.txt generated for <t>\<close>, where \<open><t>\<close> is the
  trimmed site URL or \<^verbatim>\<open>your site\<close> when that is empty, then
  \<^verbatim>\<open>User-Agent: *\<close> and \<^verbatim>\<open>Disallow: /\<close>; the generated text begins with
  these three, each ended by a newline.
\<close>

theorem header_and_deny_all:
  "take 3 (generateLines u c m) =
     [js ''# LLMs.txt generated for '' @ (if trim u = [] then js ''your site'' else trim u),
      js ''User-Agent: *'', js ''Disallow: /'']
   \<and> prefix (js ''# LLMs.txt generated for '' @ (if trim u = [] then js ''your site'' else trim u)
             @ js ''\<newline>User-Agent: *\<newline>Disallow: /\<newline>'')
            (generate u c m)"
proof -
  have "take 3 (generateLines u c m) =
     [js ''# LLMs.txt generated for '' @ (if trim u = [] then js ''your site'' else trim u),
      js ''User-Agent: *'', js ''Disallow: /'']"
    by (simp add: generateLines_unfold)
  moreover have "prefix (js ''# LLMs.txt generated for '' @ (if trim u = [] then js ''your site'' else trim u)
             @ js ''\<newline>User-Agent: *\<newline>Disallow: /\<newline>'')
            (generate u c m)"
    unfolding generate_text by (simp add: js_def)
  ultimately show ?thesis by simp
qed

text \<open>
  The theorem at the URL \<^verbatim>\<open>https://x.com\<close> and at a URL of two blanks.
\<close>

theorem header_and_deny_all_witness:
  "take 3 (generateLines (js ''https://x.com'') [] initialSettings) =
     [js ''# LLMs.txt generated for https://x.com'', js ''User-Agent: *'', js ''Disallow: /'']
   \<and> prefix (js ''# LLMs.txt generated for https://x.com\<newline>User-Agent: *\<newline>Disallow: /\<newline>'')
        (generate (js ''https://x.com'') [] initialSettings)
   \<and> prefix (js ''# LLMs.txt generated for your site\<newline>User-Agent: *\<newline>Disallow: /\<newline>'')
        (generate (js ''  '') [] initialSettings)"
  using header_and_deny_all [of "js ''https://x.com''" "[]" initialSettings]
        header_and_deny_all [of "js ''  ''" "[]" initialSettings]
  by (simp add: trim_def js_def isWhiteSpace_def)

section \<open>Agent blocks\<close>

text \<open>
  C3. For every policy mapping, the entries of \<^verbatim>\<open>lines\<close> after the deny-all
  block are one block per catalog agent, in the order OpenAI, Perplexity,
  ClaudeBot, Google-Extended, CCBot: an empty line, \<^verbatim>\<open>User-Agent: <name>\<close>,
  and \<^verbatim>\<open>Allow: /\<close> when the mapping holds \<open>true\<close> for the agent,
  \<^verbatim>\<open>Disallow: /\<close> otherwise; only the contact lines may follow. The generated
  text is the header, the deny-all block, these five blocks in this order,
  each begun by an empty line, and the contact part. After any sequence of
  events the displayed text is the one generated from the current state, and
  its lines from the fourth on are the five blocks for the current mapping:
  no history of toggles reorders them.
\<close>

theorem agent_blocks_in_catalog_order:
  "drop 3 (generateLines u c m) =
     [[], js ''User-Agent: OpenAI'',
      if m (js ''OpenAI'') = Some True then js ''Allow: /'' else js ''Disallow: /'',
      [], js ''User-Agent: Perplexity'',
      if m (js ''Perplexity'') = Some True then js ''Allow: /'' else js ''Disallow: /'',
      [], js ''User-Agent: ClaudeBot'',
      if m (js ''ClaudeBot'') = Some True then js ''Allow: /'' else js ''Disallow: /'',
      [], js ''User-Agent: Google-Extended'',
      if m (js ''Google-Extended'') = Some True then js ''Allow: /'' else js ''Disallow: /'',
      [], js ''User-Agent: CCBot'',
      if m (js ''CCBot'') = Some True then js ''Allow: /'' else js ''Disallow: /'']
     @ (if trim c = [] then [] else [[], js ''# Contact: '' @ trim c])
   \<and> generate u c m =
       js ''# LLMs.txt generated for '' @ (if trim u = [] then js ''your site'' else trim u)
       @ js ''\<newline>User-Agent: *\<newline>Disallow: /''
       @ js ''\<newline>\<newline>User-Agent: OpenAI\<newline>''
       @ (if m (js ''OpenAI'') = Some True then js ''Allow: /'' else js ''Disallow: /'')
       @ js ''\<newline>\<newline>User-Agent: Perplexity\<newline>''
       @ (if m (js ''Perplexity'') = Some True then js ''Allow: /'' else js ''Disallow: /'')
       @ js ''\<newline>\<newline>User-Agent: ClaudeBot\<newline>''
       @ (if m (js ''ClaudeBot'') = Some True then js ''Allow: /'' else js ''Disallow: /'')
       @ js ''\<newline>\<newline>User-Agent: Google-Extended\<newline>''
       @ (if m (js ''Google-Extended'') = Some True then js ''Allow: /'' else js ''Disallow: /'')
       @ js ''\<newline>\<newline>User-Agent: CCBot\<newline>''
       @ (if m (js ''CCBot'') = Some True then js ''Allow: /'' else js ''Disallow: /'')
       @ (if trim c = [] then [] else js ''\<newline>\<newline># Contact: '' @ trim c)
   \<and> generatedContent (run mounted evs) =
       generate (siteUrl (run mounted evs)) (contact (run mounted evs)) (settings (run mounted evs))
   \<and> drop 3 (text_lines (generatedContent (run mounted evs))) =
       [[], js ''User-Agent: OpenAI'',
        if settings (run mounted evs) (js ''OpenAI'') = Some True
        then js ''Allow: /'' else js ''Disallow: /'',
        [], js ''User-Agent: Perplexity'',
        if settings (run mounted evs) (js ''Perplexity'') = Some True
        then js ''Allow: /'' else js ''Disallow: /'',
        [], js ''User-Agent: ClaudeBot'',
        if settings (run mounted evs) (js ''ClaudeBot'') = Some True
        then js ''Allow: /'' else js ''Disallow: /'',
        [], js ''User-Agent: Google-Extended'',
        if settings (run mounted evs) (js ''Google-Extended'') = Some True
        then js ''Allow: /'' else js ''Disallow: /'',
        [], js ''User-Agent: CCBot'',
        if settings (run mounted evs) (js ''CCBot'') = Some True
        then js ''Allow: /'' else js ''Disallow: /'']
       @ (if trim (contact (run mounted evs)) = [] then []
          else [[], js ''# Contact: '' @ trim (contact (run mounted evs))])"
proof -
  have whole: "generate u c m =
       js ''# LLMs.txt generated for '' @ (if trim u = [] then js ''your site'' else trim u)
       @ js ''\<newline>User-Agent: *\<newline>Disallow: /''
       @ js ''\<newline>\<newline>User-Agent: OpenAI\<newline>''
       @ (if m (js ''OpenAI'') = Some True then js ''Allow: /'' else js ''Disallow: /'')
       @ js ''\<newline>\<newline>User-Agent: Perplexity\<newline>''
       @ (if m (js ''Perplexity'') = Some True then js ''Allow: /'' else js ''Disallow: /'')
       @ js ''\<newline>\<newline>User-Agent: ClaudeBot\<newline>''
       @ (if m (js ''ClaudeBot'') = Some True then js ''Allow: /'' else js ''Disallow: /'')
       @ js ''\<newline>\<newline>User-Agent: Google-Extended\<newline>''
       @ (if m (js ''Google-Extended'') = Some True then js ''Allow: /'' else js ''Disallow: /'')
       @ js ''\<newline>\<newline>User-Agent: CCBot\<newline>''
       @ (if m (js ''CCBot'') = Some True then js ''Allow: /'' else js ''Disallow: /'')
       @ (if trim c = [] then [] else js ''\<newline>\<newline># Contact: '' @ trim c)"
    unfolding generate_def generateLines_unfold llmList_def
    by (simp add: js_def truthy_iff)
  have link: "text_lines (generate u' c' m') = generateLines u' c' m'"
    if "singleLine u'" "singleLine c'" for u' c' m'
  proof -
    have lines_of_join: "ls \<noteq> [] \<Longrightarrow> \<forall>l \<in> set ls. 10 \<notin> set l \<Longrightarrow> text_lines (join [10] ls) = ls"
      for ls
      by (induction "[10] :: jsstring" ls rule: join.induct)
         (simp_all add: text_lines_single text_lines_line)
    have "\<forall>l \<in> set (generateLines u' c' m'). 10 \<notin> set l"
      using that by (intro generateLines_clean singleLine_trim)
    then show ?thesis
      unfolding generate_def js_n by (rule lines_of_join [OF generateLines_nonempty])
  qed
  have shown: "text_lines (generatedContent (run mounted evs)) =
      generateLines (siteUrl (run mounted evs)) (contact (run mounted evs)) (settings (run mounted evs))"
    unfolding reachable_facts(1) [of evs]
    by (rule link [OF reachable_facts(2,3)])
  show ?thesis
    unfolding shown using agent_lines whole reachable_facts(1) [of evs] by blast
qed

text \<open>
  The theorem after toggling \<^verbatim>\<open>CCBot\<close> and then \<^verbatim>\<open>OpenAI\<close>.
\<close>

theorem agent_blocks_in_catalog_order_witness:
  "drop 3 (generateLines [] []
      (toggleSetting (toggleSetting initialSettings (js ''CCBot'')) (js ''OpenAI''))) =
     [[], js ''User-Agent: OpenAI'', js ''Disallow: /'',
      [], js ''User-Agent: Perplexity'', js ''Allow: /'',
      [], js ''User-Agent: ClaudeBot'', js ''Disallow: /'',
      [], js ''User-Agent: Google-Extended'', js ''Disallow: /'',
      [], js ''User-Agent: CCBot'', js ''Allow: /'']
   \<and> drop 3 (text_lines (generatedContent
        (run mounted [ToggleCheckbox (js ''CCBot''), ToggleCheckbox (js ''OpenAI'')]))) =
     [[], js ''User-Agent: OpenAI'', js ''Disallow: /'',
      [], js ''User-Agent: Perplexity'', js ''Allow: /'',
      [], js ''User-Agent: ClaudeBot'', js ''Disallow: /'',
      [], js ''User-Agent: Google-Extended'', js ''Disallow: /'',
      [], js ''User-Agent: CCBot'', js ''Allow: /'']"
proof -
  have cat: "js ''CCBot'' \<in> set (map name llmList)" "js ''OpenAI'' \<in> set (map name llmList)"
    by (simp_all add: llmList_def)
  have st: "settings (run mounted [ToggleCheckbox (js ''CCBot''), ToggleCheckbox (js ''OpenAI'')]) =
      toggleSetting (toggleSetting initialSettings (js ''CCBot'')) (js ''OpenAI'')"
      "contact (run mounted [ToggleCheckbox (js ''CCBot''), ToggleCheckbox (js ''OpenAI'')]) = []"
    using cat by (simp_all add: mounted_def firstRender_def useEffect_body_def)
  note w1 = agent_blocks_in_catalog_order
    [where u = "[]" and c = "[]" and evs = "[]"
       and m = "toggleSetting (toggleSetting initialSettings (js ''CCBot'')) (js ''OpenAI'')",
     THEN conjunct1]
  note w2 = agent_blocks_in_catalog_order
    [where u = "[]" and c = "[]" and m = initialSettings
       and evs = "[ToggleCheckbox (js ''CCBot''), ToggleCheckbox (js ''OpenAI'')]",
     THEN conjunct2, THEN conjunct2, THEN conjunct2]
  show ?thesis
    using w1 w2 names_distinct names_distinct [symmetric] unfolding st
    by (simp add: toggleSetting_def initialSettings_values trim_Nil)
qed

section \<open>The contact line\<close>

text \<open>
  C4. When the trimmed contact is not empty, the generator pushes the entries
  of the contact-free output, then an empty line and
  \<^verbatim>\<open># Contact: <trimmed contact>\<close>, and the text is the contact-free text
  followed by two newlines and that line; when the contact is empty or white
  space, entries and text are those of the contact-free output. For a site
  URL and a contact that are single lines, as the values of the two input
  fields are, the same holds of the lines of the generated text: with a
  contact, the text has eighteen lines followed by an empty line and the
  contact line, which is its only line starting with \<^verbatim>\<open># Contact:\<close>;
  without one, it has eighteen lines and none starts with \<^verbatim>\<open># Contact:\<close>.
  This holds of the text displayed after any sequence of events.
\<close>

theorem contact_line:
  "(trim c \<noteq> [] \<longrightarrow>
      generateLines u c m = generateLines u [] m @ [[], js ''# Contact: '' @ trim c]
    \<and> generate u c m = generate u [] m @ js ''\<newline>\<newline># Contact: '' @ trim c
    \<and> filter (prefix (js ''# Contact:'')) (generateLines u c m) = [js ''# Contact: '' @ trim c])
   \<and> (trim c = [] \<longrightarrow>
      generateLines u c m = generateLines u [] m
    \<and> generate u c m = generate u [] m
    \<and> filter (prefix (js ''# Contact:'')) (generateLines u c m) = [])
   \<and> (singleLine u \<and> singleLine c \<and> trim c \<noteq> [] \<longrightarrow>
      drop 18 (text_lines (generate u c m)) = [[], js ''# Contact: '' @ trim c]
    \<and> filter (prefix (js ''# Contact:'')) (text_lines (generate u c m)) =
        [js ''# Contact: '' @ trim c])
   \<and> (singleLine u \<and> singleLine c \<and> trim c = [] \<longrightarrow>
      length (text_lines (generate u c m)) = 18
    \<and> filter (prefix (js ''# Contact:'')) (text_lines (generate u c m)) = [])
   \<and> (trim (contact (run mounted evs)) \<noteq> [] \<longrightarrow>
      drop 18 (text_lines (generatedContent (run mounted evs))) =
        [[], js ''# Contact: '' @ trim (contact (run mounted evs))]
    \<and> filter (prefix (js ''# Contact:'')) (text_lines (generatedContent (run mounted evs))) =
        [js ''# Contact: '' @ trim (contact (run mounted evs))])
   \<and> (trim (contact (run mounted evs)) = [] \<longrightarrow>
      length (text_lines (generatedContent (run mounted evs))) = 18
    \<and> filter (prefix (js ''# Contact:'')) (text_lines (generatedContent (run mounted evs))) = [])"
proof -
  have appended: "generate u c m =
      generate u [] m @ (if trim c \<noteq> [] then js ''\<newline>\<newline># Contact: '' @ trim c else [])"
    unfolding generate_def generateLines_unfold llmList_def
    by (simp add: js_def trim_Nil)
  have a1: "generateLines u c m = generateLines u [] m @ [[], js ''# Contact: '' @ trim c]"
      "generate u c m = generate u [] m @ js ''\<newline>\<newline># Contact: '' @ trim c"
      "filter (prefix (js ''# Contact:'')) (generateLines u c m) = [js ''# Contact: '' @ trim c]"
    if "trim c \<noteq> []"
    using that contact_entries(1) [of u c m] appended contact_filter [of u c m]
    by presburger+
  have a2: "generateLines u c m = generateLines u [] m"
      "generate u c m = generate u [] m"
      "filter (prefix (js ''# Contact:'')) (generateLines u c m) = []"
    if "trim c = []"
    using that contact_entries(1) [of u c m] appended contact_filter [of u c m]
    by (metis append_Nil2)+
  have entries: "(trim c \<noteq> [] \<longrightarrow>
      generateLines u c m = generateLines u [] m @ [[], js ''# Contact: '' @ trim c]
    \<and> generate u c m = generate u [] m @ js ''\<newline>\<newline># Contact: '' @ trim c
    \<and> filter (prefix (js ''# Contact:'')) (generateLines u c m) = [js ''# Contact: '' @ trim c])
   \<and> (trim c = [] \<longrightarrow>
      generateLines u c m = generateLines u [] m
    \<and> generate u c m = generate u [] m
    \<and> filter (prefix (js ''# Contact:'')) (generateLines u c m) = [])"
    using a1 a2 by blast
  have b1: "drop 18 (generateLines u' c' m') = [[], js ''# Contact: '' @ trim c']" if "trim c' \<noteq> []"
    for u' c' m'
  proof -
    have "generateLines u' c' m' = generateLines u' [] m' @ [[], js ''# Contact: '' @ trim c']"
      using that contact_entries(1) [of u' c' m'] by presburger
    then show ?thesis using contact_entries(6) [of u' m'] by simp
  qed
  have b2: "filter (prefix (js ''# Contact:'')) (generateLines u' c' m') = [js ''# Contact: '' @ trim c']"
    if "trim c' \<noteq> []" for u' c' m'
    using that contact_filter [of u' c' m'] by presburger
  have b3: "length (generateLines u' c' m') = 18
      \<and> filter (prefix (js ''# Contact:'')) (generateLines u' c' m') = []"
    if "trim c' = []" for u' c' m'
    using that contact_filter [of u' c' m'] length_generateLines [of u' c' m'] by presburger
  have lines: "(trim c' \<noteq> [] \<longrightarrow>
      drop 18 (generateLines u' c' m') = [[], js ''# Contact: '' @ trim c']
    \<and> filter (prefix (js ''# Contact:'')) (generateLines u' c' m') = [js ''# Contact: '' @ trim c'])
   \<and> (trim c' = [] \<longrightarrow>
      length (generateLines u' c' m') = 18
    \<and> filter (prefix (js ''# Contact:'')) (generateLines u' c' m') = [])" for u' c' m'
    using b1 b2 b3 by blast
  have link: "text_lines (generate u' c' m') = generateLines u' c' m'"
    if "singleLine u'" "singleLine c'" for u' c' m'
  proof -
    have lines_of_join: "ls \<noteq> [] \<Longrightarrow> \<forall>l \<in> set ls. 10 \<notin> set l \<Longrightarrow> text_lines (join [10] ls) = ls"
      for ls
      by (induction "[10] :: jsstring" ls rule: join.induct)
         (simp_all add: text_lines_single text_lines_line)
    have "\<forall>l \<in> set (generateLines u' c' m'). 10 \<notin> set l"
      using that by (intro generateLines_clean singleLine_trim)
    then show ?thesis
      unfolding generate_def js_n by (rule lines_of_join [OF generateLines_nonempty])
  qed
  have shown: "text_lines (generatedContent (run mounted evs)) =
      generateLines (siteUrl (run mounted evs)) (contact (run mounted evs)) (settings (run mounted evs))"
    unfolding reachable_facts(1) [of evs]
    by (rule link [OF reachable_facts(2,3)])
  have fn: "(singleLine u \<and> singleLine c \<and> trim c \<noteq> [] \<longrightarrow>
      drop 18 (text_lines (generate u c m)) = [[], js ''# Contact: '' @ trim c]
    \<and> filter (prefix (js ''# Contact:'')) (text_lines (generate u c m)) =
        [js ''# Contact: '' @ trim c])
   \<and> (singleLine u \<and> singleLine c \<and> trim c = [] \<longrightarrow>
      length (text_lines (generate u c m)) = 18
    \<and> filter (prefix (js ''# Contact:'')) (text_lines (generate u c m)) = [])"
    using lines [of c u m] link by simp
  from entries fn show ?thesis
    unfolding shown using lines [of "contact (run mounted evs)"] by blast
qed

text \<open>
  The theorem at the contact \<^verbatim>\<open>" a@b.com "\<close>, at a contact of four blanks, and
  on the page after the contact field has changed to \<^verbatim>\<open>a@b.com\<close>.
\<close>

theorem contact_line_witness:
  "trim (js '' a@b.com '') \<noteq> []
   \<and> filter (prefix (js ''# Contact:'')) (generateLines [] (js '' a@b.com '') initialSettings) =
       [js ''# Contact: a@b.com'']
   \<and> suffix (js ''\<newline>\<newline># Contact: a@b.com'') (generate [] (js '' a@b.com '') initialSettings)
   \<and> singleLine [] \<and> singleLine (js '' a@b.com '')
   \<and> drop 18 (text_lines (generate [] (js '' a@b.com '') initialSettings)) =
       [[], js ''# Contact: a@b.com'']
   \<and> filter (prefix (js ''# Contact:'')) (text_lines (generate [] (js '' a@b.com '') initialSettings)) =
       [js ''# Contact: a@b.com'']
   \<and> trim (js ''    '') = [] \<and> singleLine (js ''    '')
   \<and> filter (prefix (js ''# Contact:'')) (generateLines [] (js ''    '') initialSettings) = []
   \<and> filter (prefix (js ''# Contact:'')) (text_lines (generate [] (js ''    '') initialSettings)) = []
   \<and> trim (contact (run mounted [ChangeContact (js ''a@b.com'')])) \<noteq> []
   \<and> filter (prefix (js ''# Contact:''))
        (text_lines (generatedContent (run mounted [ChangeContact (js ''a@b.com'')]))) =
       [js ''# Contact: a@b.com'']"
proof -
  have t1: "trim (js '' a@b.com '') = js ''a@b.com''"
    by (simp add: trim_def js_def isWhiteSpace_def)
  have n1: "trim (js '' a@b.com '') \<noteq> []"
    unfolding t1 by (simp add: js_def)
  have t2: "trim (js ''    '') = []"
    by (simp add: trim_def js_def isWhiteSpace_def)
  have s: "singleLine []" "singleLine (js '' a@b.com '')" "singleLine (js ''    '')"
      "singleLine (js ''a@b.com'')"
    by (simp_all add: singleLine_def js_def)
  have c3: "contact (run mounted [ChangeContact (js ''a@b.com'')]) = js ''a@b.com''"
    using s(4) by (simp add: mounted_def firstRender_def useEffect_body_def js_def)
  have t3: "trim (js ''a@b.com'') = js ''a@b.com''" "js ''a@b.com'' \<noteq> []"
    by (simp_all add: trim_def js_def isWhiteSpace_def)
  note w1 = contact_line [where u = "[]" and c = "js '' a@b.com ''" and m = initialSettings and evs = "[]"]
  note w2 = contact_line [where u = "[]" and c = "js ''    ''" and m = initialSettings and evs = "[]"]
  note w3 = contact_line [where u = "[]" and c = "[]" and m = initialSettings
      and evs = "[ChangeContact (js ''a@b.com'')]"]
  have e1: "js ''# Contact: '' @ js ''a@b.com'' = js ''# Contact: a@b.com''"
    by (simp add: js_def)
  have e2: "js ''\<newline>\<newline># Contact: '' @ js ''a@b.com'' = js ''\<newline>\<newline># Contact: a@b.com''"
    by (simp add: js_def)
  have "filter (prefix (js ''# Contact:'')) (generateLines [] (js '' a@b.com '') initialSettings) =
       [js ''# Contact: a@b.com'']"
    using w1 n1 unfolding t1 e1 by blast
  moreover have "generate [] (js '' a@b.com '') initialSettings =
       generate [] [] initialSettings @ js ''\<newline>\<newline># Contact: a@b.com''"
    using w1 n1 unfolding t1 e2 by blast
  then have "suffix (js ''\<newline>\<newline># Contact: a@b.com'') (generate [] (js '' a@b.com '') initialSettings)"
    by (rule suffixI)
  moreover have "drop 18 (text_lines (generate [] (js '' a@b.com '') initialSettings)) =
       [[], js ''# Contact: a@b.com'']
     \<and> filter (prefix (js ''# Contact:'')) (text_lines (generate [] (js '' a@b.com '') initialSettings)) =
       [js ''# Contact: a@b.com'']"
    using w1 n1 s(1,2) unfolding t1 e1 by blast
  moreover have "filter (prefix (js ''# Contact:'')) (generateLines [] (js ''    '') initialSettings) = []
     \<and> filter (prefix (js ''# Contact:'')) (text_lines (generate [] (js ''    '') initialSettings)) = []"
    using w2 t2 s(1,3) by blast
  moreover have "trim (contact (run mounted [ChangeContact (js ''a@b.com'')])) \<noteq> []
     \<and> filter (prefix (js ''# Contact:''))
        (text_lines (generatedContent (run mounted [ChangeContact (js ''a@b.com'')]))) =
       [js ''# Contact: a@b.com'']"
    using w3 t3(2) unfolding c3 t3(1) e1 by blast
  ultimately show ?thesis using n1 t2 s by blast
qed

section \<open>Newlines\<close>

text \<open>
  C5. The generated text is every entry of \<^verbatim>\<open>lines\<close> but the last followed
  by one newline, then the last entry, and it never ends in a newline. For a
  site URL and a contact that are single lines it never contains three
  consecutive newlines. The text displayed after any sequence of events
  neither ends in a newline nor contains three consecutive newlines.
\<close>

theorem newline_structure:
  "generate u c m =
     concat (map (\<lambda>l. l @ js ''\<newline>'') (butlast (generateLines u c m)))
     @ last (generateLines u c m)
   \<and> \<not> suffix (js ''\<newline>'') (generate u c m)
   \<and> (singleLine u \<and> singleLine c \<longrightarrow> \<not> sublist (js ''\<newline>\<newline>\<newline>'') (generate u c m))
   \<and> \<not> suffix (js ''\<newline>'') (generatedContent (run mounted evs))
   \<and> \<not> sublist (js ''\<newline>\<newline>\<newline>'') (generatedContent (run mounted evs))"
proof -
  have a: "generate u c m =
     concat (map (\<lambda>l. l @ js ''\<newline>'') (butlast (generateLines u c m)))
     @ last (generateLines u c m)"
  proof -
    have joined: "xs \<noteq> [] \<Longrightarrow> join sep xs = concat (map (\<lambda>l. l @ sep) (butlast xs)) @ last xs"
      for sep xs
      by (induction sep xs rule: join.induct) simp_all
    show ?thesis
      unfolding generate_def by (rule joined [OF generateLines_nonempty])
  qed
  have b: "\<not> suffix (js ''\<newline>'') (generate u' c' m')" for u' c' m'
  proof
    assume "suffix (js ''\<newline>'') (generate u' c' m')"
    then obtain p where "generate u' c' m' = p @ [10]"
      unfolding js_n by (auto simp: suffix_def)
    then have "last (generate u' c' m') = 10" by simp
    with no_trailing_newline show False by blast
  qed
  have inner: "\<not> sublist [10, 10, 10] (trim s)" if "singleLine s" for s
  proof
    assume "sublist [10, 10, 10] (trim s)"
    then have "set [10, 10, 10 :: jschar] \<subseteq> set (trim s)"
      by (rule set_mono_sublist)
    with singleLine_trim [OF that] show False by simp
  qed
  have c: "\<not> sublist (js ''\<newline>\<newline>\<newline>'') (generate u' c' m')"
    if "singleLine u'" "singleLine c'" for u' c' m'
    unfolding js_nnn triple_newline_iff using inner that by blast
  have d: "\<not> suffix (js ''\<newline>'') (generatedContent (run mounted evs))
      \<and> \<not> sublist (js ''\<newline>\<newline>\<newline>'') (generatedContent (run mounted evs))"
    unfolding reachable_facts(1) [of evs]
    using b c [OF reachable_facts(2,3)] by blast
  from a b c d show ?thesis by blast
qed

text \<open>
  The theorem at a URL and a contact with a trailing blank.
\<close>

theorem newline_structure_witness:
  "singleLine (js ''https://x.com'') \<and> singleLine (js ''a@b.com '')
   \<and> \<not> suffix (js ''\<newline>'') (generate (js ''https://x.com'') (js ''a@b.com '') initialSettings)
   \<and> \<not> sublist (js ''\<newline>\<newline>\<newline>'') (generate (js ''https://x.com'') (js ''a@b.com '') initialSettings)"
proof -
  have s: "singleLine (js ''https://x.com'')" "singleLine (js ''a@b.com '')"
    by (simp_all add: singleLine_def js_def)
  with newline_structure [where u = "js ''https://x.com''" and c = "js ''a@b.com ''"
      and m = initialSettings and evs = "[]"]
  show ?thesis by blast
qed

section \<open>Toggling\<close>

text \<open>
  C6. Toggling \<open>n\<close> leaves the entry of every other key as it was and
  stores under \<open>n\<close> the negation of what was there (read as a boolean). When
  \<open>n\<close> is the \<open>j\<close>-th catalog agent, the regenerated entries of
  \<^verbatim>\<open>lines\<close> are the old ones with the rule line of that agent, at index
  \<open>3 j + 5\<close>, replaced by the opposite rule: that line differs from the old one
  and every other line is the same. For a site URL and a contact that are
  single lines the same holds of the lines of the generated text. On the page,
  after any sequence of events, a click on the checkbox of \<open>n\<close> leaves the
  site URL and the contact as they are, and the lines of the displayed text
  are the lines displayed before with line \<open>3 j + 5\<close> replaced by the opposite
  rule.
\<close>

theorem toggle_frame:
  "(\<forall>k. k \<noteq> n \<longrightarrow> toggleSetting m n k = m k)
   \<and> toggleSetting m n n = Some (\<not> truthy (m n))
   \<and> (\<forall>j < length llmList. name (llmList ! j) = n \<longrightarrow>
        generateLines u c (toggleSetting m n) =
          (generateLines u c m)[3 * j + 5 :=
             (if truthy (m n) then js ''Disallow: /'' else js ''Allow: /'')]
      \<and> generateLines u c m ! (3 * j + 5) =
             (if truthy (m n) then js ''Allow: /'' else js ''Disallow: /'')
      \<and> generateLines u c (toggleSetting m n) ! (3 * j + 5) \<noteq> generateLines u c m ! (3 * j + 5)
      \<and> (singleLine u \<and> singleLine c \<longrightarrow>
            text_lines (generate u c (toggleSetting m n)) =
              (text_lines (generate u c m))[3 * j + 5 :=
                 (if truthy (m n) then js ''Disallow: /'' else js ''Allow: /'')]
          \<and> 3 * j + 5 < length (text_lines (generate u c m))
          \<and> text_lines (generate u c m) ! (3 * j + 5) =
                 (if truthy (m n) then js ''Allow: /'' else js ''Disallow: /''))
      \<and> siteUrl (step (ToggleCheckbox n) (run mounted evs)) = siteUrl (run mounted evs)
      \<and> contact (step (ToggleCheckbox n) (run mounted evs)) = contact (run mounted evs)
      \<and> text_lines (generatedContent (step (ToggleCheckbox n) (run mounted evs))) =
           (text_lines (generatedContent (run mounted evs)))[3 * j + 5 :=
              (if truthy (settings (run mounted evs) n) then js ''Disallow: /'' else js ''Allow: /'')]
      \<and> 3 * j + 5 < length (text_lines (generatedContent (run mounted evs)))
      \<and> text_lines (generatedContent (run mounted evs)) ! (3 * j + 5) =
           (if truthy (settings (run mounted evs) n) then js ''Allow: /'' else js ''Disallow: /''))"
proof -
  have frame: "\<forall>k. k \<noteq> n \<longrightarrow> toggleSetting m n k = m k"
    by (simp add: toggleSetting_def)
  have flip: "toggleSetting m n n = Some (\<not> truthy (m n))"
    by (simp add: toggleSetting_def)
  have link: "text_lines (generate u' c' m') = generateLines u' c' m'"
    if "singleLine u'" "singleLine c'" for u' c' m'
  proof -
    have lines_of_join: "ls \<noteq> [] \<Longrightarrow> \<forall>l \<in> set ls. 10 \<notin> set l \<Longrightarrow> text_lines (join [10] ls) = ls"
      for ls
      by (induction "[10] :: jsstring" ls rule: join.induct)
         (simp_all add: text_lines_single text_lines_line)
    have "\<forall>l \<in> set (generateLines u' c' m'). 10 \<notin> set l"
      using that by (intro generateLines_clean singleLine_trim)
    then show ?thesis
      unfolding generate_def js_n by (rule lines_of_join [OF generateLines_nonempty])
  qed
  have fn: "text_lines (generate u' c' (toggleSetting m' n)) =
              (text_lines (generate u' c' m'))[3 * j + 5 :=
                 (if truthy (m' n) then js ''Disallow: /'' else js ''Allow: /'')]
          \<and> 3 * j + 5 < length (text_lines (generate u' c' m'))
          \<and> text_lines (generate u' c' m') ! (3 * j + 5) =
                 (if truthy (m' n) then js ''Allow: /'' else js ''Disallow: /'')"
    if "j < length llmList" "name (llmList ! j) = n" and sl: "singleLine u' \<and> singleLine c'"
    for j u' c' m'
  proof -
    from sl have l: "text_lines (generate u' c' m'') = generateLines u' c' m''" for m''
      by (simp add: link)
    show ?thesis
      unfolding l
      by (intro conjI toggle_lines(1,2,4) [OF that(1,2)])
  qed
  have reach: "siteUrl (step (ToggleCheckbox n) (run mounted evs)) = siteUrl (run mounted evs)
      \<and> contact (step (ToggleCheckbox n) (run mounted evs)) = contact (run mounted evs)
      \<and> text_lines (generatedContent (step (ToggleCheckbox n) (run mounted evs))) =
           (text_lines (generatedContent (run mounted evs)))[3 * j + 5 :=
              (if truthy (settings (run mounted evs) n) then js ''Disallow: /'' else js ''Allow: /'')]
      \<and> 3 * j + 5 < length (text_lines (generatedContent (run mounted evs)))
      \<and> text_lines (generatedContent (run mounted evs)) ! (3 * j + 5) =
           (if truthy (settings (run mounted evs) n) then js ''Allow: /'' else js ''Disallow: /'')"
    if jn: "j < length llmList" "name (llmList ! j) = n" for j
  proof -
    from jn have cat: "n \<in> set (map name llmList)"
      by (metis length_map nth_map nth_mem)
    then have g: "generatedContent (step (ToggleCheckbox n) (run mounted evs)) =
        generate (siteUrl (run mounted evs)) (contact (run mounted evs))
          (toggleSetting (settings (run mounted evs)) n)"
      by (simp add: useEffect_body_def)
    from cat have f: "siteUrl (step (ToggleCheckbox n) (run mounted evs)) = siteUrl (run mounted evs)"
        "contact (step (ToggleCheckbox n) (run mounted evs)) = contact (run mounted evs)"
      by (simp_all add: useEffect_body_def)
    have sl: "singleLine (siteUrl (run mounted evs)) \<and> singleLine (contact (run mounted evs))"
      using reachable_facts(2,3) [of evs] by simp
    note t = fn [OF jn sl, of "settings (run mounted evs)"]
    show ?thesis
      unfolding g reachable_facts(1) [of evs]
      by (intro conjI f t [THEN conjunct1] t [THEN conjunct2, THEN conjunct1]
            t [THEN conjunct2, THEN conjunct2])
  qed
  have per_j: "generateLines u c (toggleSetting m n) =
          (generateLines u c m)[3 * j + 5 :=
             (if truthy (m n) then js ''Disallow: /'' else js ''Allow: /'')]
      \<and> generateLines u c m ! (3 * j + 5) =
             (if truthy (m n) then js ''Allow: /'' else js ''Disallow: /'')
      \<and> generateLines u c (toggleSetting m n) ! (3 * j + 5) \<noteq> generateLines u c m ! (3 * j + 5)
      \<and> (singleLine u \<and> singleLine c \<longrightarrow>
            text_lines (generate u c (toggleSetting m n)) =
              (text_lines (generate u c m))[3 * j + 5 :=
                 (if truthy (m n) then js ''Disallow: /'' else js ''Allow: /'')]
          \<and> 3 * j + 5 < length (text_lines (generate u c m))
          \<and> text_lines (generate u c m) ! (3 * j + 5) =
                 (if truthy (m n) then js ''Allow: /'' else js ''Disallow: /''))
      \<and> siteUrl (step (ToggleCheckbox n) (run mounted evs)) = siteUrl (run mounted evs)
      \<and> contact (step (ToggleCheckbox n) (run mounted evs)) = contact (run mounted evs)
      \<and> text_lines (generatedContent (step (ToggleCheckbox n) (run mounted evs))) =
           (text_lines (generatedContent (run mounted evs)))[3 * j + 5 :=
              (if truthy (settings (run mounted evs) n) then js ''Disallow: /'' else js ''Allow: /'')]
      \<and> 3 * j + 5 < length (text_lines (generatedContent (run mounted evs)))
      \<and> text_lines (generatedContent (run mounted evs)) ! (3 * j + 5) =
           (if truthy (settings (run mounted evs) n) then js ''Allow: /'' else js ''Disallow: /'')"
      (is "?A \<and> ?B \<and> ?C \<and> ?F \<and> ?R")
    if jn: "j < length llmList" "name (llmList ! j) = n" for j
  proof -
    have "?A" "?B" "?C"
      by (rule toggle_lines(1,2,3) [OF jn])+
    moreover have "?F"
      by (rule impI, rule fn [OF jn], assumption)
    moreover have "?R"
      by (rule reach [OF jn])
    ultimately show ?thesis by (elim conjE) (intro conjI; assumption)
  qed
  show ?thesis
  proof (intro conjI)
    show "\<forall>k. k \<noteq> n \<longrightarrow> toggleSetting m n k = m k" by (rule frame)
    show "toggleSetting m n n = Some (\<not> truthy (m n))" by (rule flip)
  qed (intro allI impI per_j)
qed

text \<open>
  Toggling \<^verbatim>\<open>ClaudeBot\<close> from the defaults changes line 11 alone, to
  \<^verbatim>\<open>Allow: /\<close>.
\<close>

theorem toggle_frame_witness:
  "js ''OpenAI'' \<noteq> js ''ClaudeBot''
   \<and> toggleSetting initialSettings (js ''ClaudeBot'') (js ''OpenAI'') = initialSettings (js ''OpenAI'')
   \<and> toggleSetting initialSettings (js ''ClaudeBot'') (js ''ClaudeBot'') = Some True
   \<and> 2 < length llmList \<and> name (llmList ! 2) = js ''ClaudeBot''
   \<and> generateLines [] [] (toggleSetting initialSettings (js ''ClaudeBot'')) =
       (generateLines [] [] initialSettings)[11 := js ''Allow: /'']
   \<and> generateLines [] [] initialSettings ! 11 = js ''Disallow: /''
   \<and> singleLine []
   \<and> text_lines (generate [] [] (toggleSetting initialSettings (js ''ClaudeBot''))) =
       (text_lines (generate [] [] initialSettings))[11 := js ''Allow: /'']
   \<and> text_lines (generate [] [] initialSettings) ! 11 = js ''Disallow: /''
   \<and> text_lines (generatedContent (step (ToggleCheckbox (js ''ClaudeBot'')) mounted)) =
       (text_lines (generatedContent mounted))[11 := js ''Allow: /'']"
proof -
  note w = toggle_frame [where n = "js ''ClaudeBot''" and m = initialSettings and u = "[]"
      and c = "[]" and evs = "[]"]
  have d: "js ''OpenAI'' \<noteq> js ''ClaudeBot''"
    by (rule names_distinct)
  have j: "2 < length llmList" "name (llmList ! 2) = js ''ClaudeBot''"
    by (simp_all add: llmList_def)
  have s: "singleLine []"
    by (rule singleLine_Nil)
  have v: "truthy (initialSettings (js ''ClaudeBot'')) = False" "3 * 2 + 5 = (11::nat)"
      "run mounted [] = mounted" "settings mounted = initialSettings"
    by (simp_all add: initialSettings_values mounted_def useEffect_body_def firstRender_def)
  from w d have a: "toggleSetting initialSettings (js ''ClaudeBot'') (js ''OpenAI'') = initialSettings (js ''OpenAI'')"
    by blast
  from w have b: "toggleSetting initialSettings (js ''ClaudeBot'') (js ''ClaudeBot'') = Some True"
    by (simp add: initialSettings_values)
  note p = w [THEN conjunct2, THEN conjunct2, rule_format, OF j, unfolded v if_False]
  from p have "generateLines [] [] (toggleSetting initialSettings (js ''ClaudeBot'')) =
       (generateLines [] [] initialSettings)[11 := js ''Allow: /'']
     \<and> generateLines [] [] initialSettings ! 11 = js ''Disallow: /''"
    by blast
  moreover from p s have "text_lines (generate [] [] (toggleSetting initialSettings (js ''ClaudeBot''))) =
       (text_lines (generate [] [] initialSettings))[11 := js ''Allow: /'']
     \<and> text_lines (generate [] [] initialSettings) ! 11 = js ''Disallow: /''"
    by blast
  moreover from p have "text_lines (generatedContent (step (ToggleCheckbox (js ''ClaudeBot'')) mounted)) =
       (text_lines (generatedContent mounted))[11 := js ''Allow: /'']"
    by blast
  ultimately show ?thesis using a b d j s by blast
qed

text \<open>
  C7. Toggling \<open>n\<close> twice gives back a mapping that holds a boolean under
  \<open>n\<close>: the value under \<open>n\<close> is the original one and so is every other
  entry. For every mapping the entry under \<open>n\<close> reads as the same boolean as
  before, and the generated lines and text are those of the original mapping.
  On the page the mapping holds a boolean for every catalog agent after any
  sequence of events; one click on the checkbox of \<open>n\<close> negates it, and two
  clicks give back the mapping and the displayed text.
\<close>

theorem double_toggle:
  "(m n \<noteq> None \<longrightarrow> toggleSetting (toggleSetting m n) n = m)
   \<and> truthy (toggleSetting (toggleSetting m n) n n) = truthy (m n)
   \<and> generateLines u c (toggleSetting (toggleSetting m n) n) = generateLines u c m
   \<and> generate u c (toggleSetting (toggleSetting m n) n) = generate u c m
   \<and> (n \<in> set (map name llmList) \<longrightarrow>
        settings (run mounted evs) n \<noteq> None
      \<and> settings (step (ToggleCheckbox n) (run mounted evs)) n =
          Some (\<not> truthy (settings (run mounted evs) n))
      \<and> settings (step (ToggleCheckbox n) (step (ToggleCheckbox n) (run mounted evs))) =
          settings (run mounted evs)
      \<and> generatedContent (step (ToggleCheckbox n) (step (ToggleCheckbox n) (run mounted evs))) =
          generatedContent (run mounted evs))"
proof -
  have tt: "toggleSetting (toggleSetting m' n) n = m'(n \<mapsto> truthy (m' n))" for m'
    by (simp add: toggleSetting_def)
  have a: "toggleSetting (toggleSetting m' n) n = m'" if "m' n \<noteq> None" for m'
    unfolding tt using that by (auto simp: fun_eq_iff)
  have b: "truthy (toggleSetting (toggleSetting m n) n k) = truthy (m k)" for k
    unfolding tt by simp
  have c: "generateLines u c (toggleSetting (toggleSetting m n) n) = generateLines u c m"
    unfolding generateLines_unfold b ..
  have d: "settings (run mounted evs) n \<noteq> None
      \<and> settings (step (ToggleCheckbox n) (run mounted evs)) n =
          Some (\<not> truthy (settings (run mounted evs) n))
      \<and> settings (step (ToggleCheckbox n) (step (ToggleCheckbox n) (run mounted evs))) =
          settings (run mounted evs)
      \<and> generatedContent (step (ToggleCheckbox n) (step (ToggleCheckbox n) (run mounted evs))) =
          generatedContent (run mounted evs)"
    if cat: "n \<in> set (map name llmList)"
  proof -
    have k: "settings (run mounted evs) n \<noteq> None"
      by (rule reachable_facts(4) [OF cat])
    have two: "step (ToggleCheckbox n) (step (ToggleCheckbox n) (run mounted evs)) =
        run mounted (evs @ [ToggleCheckbox n, ToggleCheckbox n])"
      by (simp add: run_append)
    have st: "settings (step (ToggleCheckbox n) (step (ToggleCheckbox n) (run mounted evs))) =
        settings (run mounted evs)"
      using cat a [of "settings (run mounted evs)", OF k] by (simp add: useEffect_body_def)
    have "generatedContent (step (ToggleCheckbox n) (step (ToggleCheckbox n) (run mounted evs))) =
        generate (siteUrl (run mounted evs)) (contact (run mounted evs)) (settings (run mounted evs))"
      using cat a [of "settings (run mounted evs)", OF k] by (simp add: useEffect_body_def)
    with reachable_facts(1) [of evs]
    have gc: "generatedContent (step (ToggleCheckbox n) (step (ToggleCheckbox n) (run mounted evs))) =
        generatedContent (run mounted evs)"
      by simp
    have one: "settings (step (ToggleCheckbox n) (run mounted evs)) n =
          Some (\<not> truthy (settings (run mounted evs) n))"
      using cat by (simp add: useEffect_body_def toggleSetting_def)
    from k one st gc show ?thesis by (intro conjI)
  qed
  from a [of m] b c d show ?thesis by (simp add: generate_def)
qed

text \<open>
  The theorem at the default mapping and on the page after \<^verbatim>\<open>OpenAI\<close> has been
  toggled.
\<close>

theorem double_toggle_witness:
  "initialSettings (js ''ClaudeBot'') \<noteq> None
   \<and> toggleSetting (toggleSetting initialSettings (js ''ClaudeBot'')) (js ''ClaudeBot'') = initialSettings
   \<and> js ''ClaudeBot'' \<in> set (map name llmList)
   \<and> settings (step (ToggleCheckbox (js ''ClaudeBot''))
        (step (ToggleCheckbox (js ''ClaudeBot'')) (run mounted [ToggleCheckbox (js ''OpenAI'')]))) =
       settings (run mounted [ToggleCheckbox (js ''OpenAI'')])
   \<and> generatedContent (step (ToggleCheckbox (js ''ClaudeBot''))
        (step (ToggleCheckbox (js ''ClaudeBot'')) (run mounted [ToggleCheckbox (js ''OpenAI'')]))) =
       generatedContent (run mounted [ToggleCheckbox (js ''OpenAI'')])"
proof -
  have cat: "js ''ClaudeBot'' \<in> set (map name llmList)"
    by (simp add: llmList_def)
  have v: "initialSettings (js ''ClaudeBot'') \<noteq> None"
    by (simp add: initialSettings_values)
  note w1 = double_toggle [where m = initialSettings and n = "js ''ClaudeBot''" and u = "[]"
      and c = "[]" and evs = "[ToggleCheckbox (js ''OpenAI'')]"]
  from w1 cat v show ?thesis by blast
qed

section \<open>Copying\<close>

text \<open>
  C8. Neither part of \<^verbatim>\<open>handleCopy\<close> changes the site URL, the contact, the
  policy mapping or the generated text. At the click, with a clipboard, the
  write of the generated text becomes pending and nothing else changes;
  without one, nothing is written or pending, the \<^verbatim>\<open>TypeError\<close> is logged
  and the copied indicator is unset. When a pending write settles, the copied
  indicator is set exactly when the write was fulfilled; a fulfilled write
  leaves its text on the clipboard, a rejected one leaves the clipboard as it
  was and its error in the console; the write is removed from the pending
  ones and no other is added, so it is not retried. A click whose write
  settles before any other event sets the indicator exactly on success, with
  the generated text on the clipboard, and leaves no write pending. Both parts
  return a page: no error leaves the handler.
\<close>

theorem handleCopy_outcomes:
  "siteUrl (handleCopy api s) = siteUrl s
   \<and> contact (handleCopy api s) = contact s
   \<and> settings (handleCopy api s) = settings s
   \<and> generatedContent (handleCopy api s) = generatedContent s
   \<and> clipboard (handleCopy api s) = clipboard s
   \<and> copied (handleCopy api s) = (case api of Available \<Rightarrow> copied s | Missing msg \<Rightarrow> False)
   \<and> console (handleCopy api s) =
       (case api of Available \<Rightarrow> console s | Missing msg \<Rightarrow> console s @ [TypeError msg])
   \<and> pending (handleCopy api s) =
       (case api of Available \<Rightarrow> pending s @ [generatedContent s] | Missing msg \<Rightarrow> pending s)
   \<and> siteUrl (handleCopy_resume i r s) = siteUrl s
   \<and> contact (handleCopy_resume i r s) = contact s
   \<and> settings (handleCopy_resume i r s) = settings s
   \<and> generatedContent (handleCopy_resume i r s) = generatedContent s
   \<and> (i < length (pending s) \<longrightarrow>
        copied (handleCopy_resume i r s) = (r = Fulfilled)
      \<and> clipboard (handleCopy_resume i r s) = (if r = Fulfilled then pending s ! i else clipboard s)
      \<and> console (handleCopy_resume i r s) =
          (case r of Fulfilled \<Rightarrow> console s | Rejected err \<Rightarrow> console s @ [err])
      \<and> pending (handleCopy_resume i r s) = take i (pending s) @ drop (Suc i) (pending s)
      \<and> Suc (length (pending (handleCopy_resume i r s))) = length (pending s))
   \<and> copied (handleCopy_resume (length (pending s)) r (handleCopy Available s)) = (r = Fulfilled)
   \<and> clipboard (handleCopy_resume (length (pending s)) r (handleCopy Available s)) =
       (if r = Fulfilled then generatedContent s else clipboard s)
   \<and> pending (handleCopy_resume (length (pending s)) r (handleCopy Available s)) = pending s"
proof -
  have click: "handleCopy api s =
      (case api of
         Available \<Rightarrow> s\<lparr>pending := pending s @ [generatedContent s]\<rparr>
       | Missing msg \<Rightarrow> s\<lparr>copied := False, console := console s @ [TypeError msg]\<rparr>)"
    by (cases api) (simp_all add: handleCopy_def handleCopy_try_def handleCopy_catch_def)
  have settle: "handleCopy_resume i r s =
      (case r of
         Fulfilled \<Rightarrow> s\<lparr>copied := True, clipboard := pending s ! i,
                         pending := take i (pending s) @ drop (Suc i) (pending s)\<rparr>
       | Rejected err \<Rightarrow> s\<lparr>copied := False, console := console s @ [err],
                         pending := take i (pending s) @ drop (Suc i) (pending s)\<rparr>)"
    if "i < length (pending s)" for i s
    using that by (cases r) (simp_all add: handleCopy_resume_def handleCopy_catch_def Let_def)
  have frame: "siteUrl (handleCopy_resume i r s) = siteUrl s
      \<and> contact (handleCopy_resume i r s) = contact s
      \<and> settings (handleCopy_resume i r s) = settings s
      \<and> generatedContent (handleCopy_resume i r s) = generatedContent s"
    by (cases "i < length (pending s)"; cases r)
       (simp_all add: handleCopy_resume_def handleCopy_catch_def Let_def)
  have first: "siteUrl (handleCopy api s) = siteUrl s
      \<and> contact (handleCopy api s) = contact s
      \<and> settings (handleCopy api s) = settings s
      \<and> generatedContent (handleCopy api s) = generatedContent s
      \<and> clipboard (handleCopy api s) = clipboard s
      \<and> copied (handleCopy api s) = (case api of Available \<Rightarrow> copied s | Missing msg \<Rightarrow> False)
      \<and> console (handleCopy api s) =
          (case api of Available \<Rightarrow> console s | Missing msg \<Rightarrow> console s @ [TypeError msg])
      \<and> pending (handleCopy api s) =
          (case api of Available \<Rightarrow> pending s @ [generatedContent s] | Missing msg \<Rightarrow> pending s)"
    unfolding click by (cases api) simp_all
  have second: "copied (handleCopy_resume i r s) = (r = Fulfilled)
      \<and> clipboard (handleCopy_resume i r s) = (if r = Fulfilled then pending s ! i else clipboard s)
      \<and> console (handleCopy_resume i r s) =
          (case r of Fulfilled \<Rightarrow> console s | Rejected err \<Rightarrow> console s @ [err])
      \<and> pending (handleCopy_resume i r s) = take i (pending s) @ drop (Suc i) (pending s)
      \<and> Suc (length (pending (handleCopy_resume i r s))) = length (pending s)"
    if "i < length (pending s)"
    unfolding settle [OF that] using that by (cases r) auto
  have whole: "copied (handleCopy_resume (length (pending s)) r (handleCopy Available s)) = (r = Fulfilled)
      \<and> clipboard (handleCopy_resume (length (pending s)) r (handleCopy Available s)) =
          (if r = Fulfilled then generatedContent s else clipboard s)
      \<and> pending (handleCopy_resume (length (pending s)) r (handleCopy Available s)) = pending s"
    by (cases r)
       (simp_all add: handleCopy_def handleCopy_try_def handleCopy_resume_def handleCopy_catch_def Let_def)
  from first frame second whole show ?thesis by blast
qed

text \<open>
  A click after mounting with the write fulfilled, with the write refused, and
  without a clipboard.
\<close>

theorem handleCopy_outcomes_witness:
  "0 < length (pending (handleCopy Available mounted))
   \<and> copied (handleCopy_resume 0 Fulfilled (handleCopy Available mounted))
   \<and> clipboard (handleCopy_resume 0 Fulfilled (handleCopy Available mounted)) = generatedContent mounted
   \<and> \<not> copied (handleCopy_resume 0 (Rejected (DOMException (js ''NotAllowedError'')))
          (handleCopy Available mounted))
   \<and> console (handleCopy_resume 0 (Rejected (DOMException (js ''NotAllowedError'')))
          (handleCopy Available mounted)) = [DOMException (js ''NotAllowedError'')]
   \<and> generatedContent (handleCopy_resume 0 (Rejected (DOMException (js ''NotAllowedError'')))
          (handleCopy Available mounted)) = generatedContent mounted
   \<and> \<not> copied (handleCopy (Missing (js ''no clipboard'')) mounted)
   \<and> console (handleCopy (Missing (js ''no clipboard'')) mounted) = [TypeError (js ''no clipboard'')]
   \<and> pending (handleCopy (Missing (js ''no clipboard'')) mounted) = []"
proof -
  have p: "pending (handleCopy Available mounted) = [generatedContent mounted]"
      "clipboard (handleCopy Available mounted) = []"
      "console (handleCopy Available mounted) = []"
      "generatedContent (handleCopy Available mounted) = generatedContent mounted"
    by (simp_all add: handleCopy_def handleCopy_try_def mounted_def useEffect_body_def firstRender_def)
  have q: "console mounted = []" "pending mounted = []"
    by (simp_all add: mounted_def useEffect_body_def firstRender_def)
  have l: "0 < length (pending (handleCopy Available mounted))"
    by (simp add: p)
  note a = handleCopy_outcomes
    [where s = "handleCopy Available mounted" and i = 0 and r = Fulfilled and api = Available]
  note b = handleCopy_outcomes
    [where s = "handleCopy Available mounted" and i = 0
       and r = "Rejected (DOMException (js ''NotAllowedError''))" and api = Available]
  note c = handleCopy_outcomes
    [where s = mounted and i = 0 and r = Fulfilled and api = "Missing (js ''no clipboard'')"]
  from a l have "copied (handleCopy_resume 0 Fulfilled (handleCopy Available mounted))
     \<and> clipboard (handleCopy_resume 0 Fulfilled (handleCopy Available mounted)) = generatedContent mounted"
    by (simp add: p)
  moreover from b l have "\<not> copied (handleCopy_resume 0 (Rejected (DOMException (js ''NotAllowedError'')))
          (handleCopy Available mounted))
     \<and> console (handleCopy_resume 0 (Rejected (DOMException (js ''NotAllowedError'')))
          (handleCopy Available mounted)) = [DOMException (js ''NotAllowedError'')]
     \<and> generatedContent (handleCopy_resume 0 (Rejected (DOMException (js ''NotAllowedError'')))
          (handleCopy Available mounted)) = generatedContent mounted"
    by (simp add: p)
  moreover from c have "\<not> copied (handleCopy (Missing (js ''no clipboard'')) mounted)
     \<and> console (handleCopy (Missing (js ''no clipboard'')) mounted) = [TypeError (js ''no clipboard'')]
     \<and> pending (handleCopy (Missing (js ''no clipboard'')) mounted) = []"
    by (simp add: q)
  ultimately show ?thesis using l by blast
qed



section \<open>Missing keys\<close>

text \<open>
  C10. The generator returns its lines for every mapping, eighteen or twenty
  of them. A key that the mapping lacks is read as disallow: the output is
  that of the mapping with \<open>false\<close> stored under the key, and the block of a
  catalog agent without an entry is \<^verbatim>\<open>User-Agent: <name>\<close> followed by
  \<^verbatim>\<open>Disallow: /\<close>.
\<close>

theorem absent_key_is_disallow:
  "(m n = None \<longrightarrow>
      generateLines u c m = generateLines u c (m(n \<mapsto> False))
    \<and> generate u c m = generate u c (m(n \<mapsto> False)))
   \<and> (\<forall>j < length llmList. m (name (llmList ! j)) = None \<longrightarrow>
        generateLines u c m ! (3 * j + 4) = js ''User-Agent: '' @ name (llmList ! j)
      \<and> generateLines u c m ! (3 * j + 5) = js ''Disallow: /'')
   \<and> length (generateLines u c m) = (if trim c = [] then 18 else 20)"
proof -
  have a: "generateLines u c m = generateLines u c (m(n \<mapsto> False))" if "m n = None"
  proof -
    have "truthy ((m(n \<mapsto> False)) k) = truthy (m k)" for k
      using that by simp
    then show ?thesis unfolding generateLines_unfold by simp
  qed
  have b: "generateLines u c m ! (3 * j + 4) = js ''User-Agent: '' @ name (llmList ! j)
      \<and> generateLines u c m ! (3 * j + 5) = js ''Disallow: /''"
    if j: "j < length llmList" and n: "m (name (llmList ! j)) = None" for j
  proof -
    from j have "j = 0 \<or> j = 1 \<or> j = 2 \<or> j = 3 \<or> j = 4"
      by (simp add: llmList_def) arith
    then show ?thesis
      using n by (elim disjE) (simp_all add: generateLines_unfold llmList_def)
  qed
  have c: "length (generateLines u c m) = (if trim c = [] then 18 else 20)"
    by (simp add: generateLines_unfold llmList_def)
  from a b c show ?thesis by (simp add: generate_def)
qed

text \<open>
  The theorem at the mapping that holds \<^verbatim>\<open>OpenAI\<close> only.
\<close>

theorem absent_key_is_disallow_witness:
  "onlyOpenAI (js ''ClaudeBot'') = None
   \<and> generate [] [] onlyOpenAI = generate [] [] (onlyOpenAI(js ''ClaudeBot'' \<mapsto> False))
   \<and> 2 < length llmList \<and> onlyOpenAI (name (llmList ! 2)) = None
   \<and> generateLines [] [] onlyOpenAI ! 10 = js ''User-Agent: ClaudeBot''
   \<and> generateLines [] [] onlyOpenAI ! 11 = js ''Disallow: /''"
proof -
  have j: "2 < length llmList" "name (llmList ! 2) = js ''ClaudeBot''"
    by (simp_all add: llmList_def)
  note w = absent_key_is_disallow [of onlyOpenAI "js ''ClaudeBot''" "[]" "[]"]
  from w onlyOpenAI_ClaudeBot
  have "generate [] [] onlyOpenAI = generate [] [] (onlyOpenAI(js ''ClaudeBot'' \<mapsto> False))"
    by blast
  moreover from w j onlyOpenAI_ClaudeBot
  have "generateLines [] [] onlyOpenAI ! (3 * 2 + 4) = js ''User-Agent: '' @ name (llmList ! 2)
      \<and> generateLines [] [] onlyOpenAI ! (3 * 2 + 5) = js ''Disallow: /''"
    by metis
  ultimately show ?thesis using j onlyOpenAI_ClaudeBot
    by (simp add: js_append [symmetric])
qed

end
